theory Spec2Isabelle
  imports Complex_Main "HOL-Library.Product_Lexorder"
begin

section \<open>Values, errors and strings\<close>

text \<open>
  The module \<^verbatim>\<open>tools.py\<close> works on pandas data frames of Python floats. In this
  development a float is a \<^typ>\<open>real\<close> and a cell that may hold NaN is a
  \<^typ>\<open>real option\<close> with \<^term>\<open>None\<close> for NaN. The sums, means and standard
  deviations of the metrics are exact. The rounding of the machine format is modelled
  where the code itself rounds to a number of decimals, on the catalog coverage: there
  the last digit kept depends on it. Every exception that the Python code or the
  library calls it makes can raise is a value of \<open>py_error\<close>, and a function that can
  raise returns \<open>py_error + 'a\<close>.
\<close>

datatype py_error = KeyError | ZeroDivisionError | ValueError | TypeError | FileNotFoundError

text \<open>\<^verbatim>\<open>str(n)\<close> for a Python int, as the f-strings of the column labels format \<open>k\<close>.\<close>

fun str_nat :: "nat \<Rightarrow> string" where
  "str_nat n =
     (if n < 10 then [''0123456789'' ! n]
      else str_nat (n div 10) @ [''0123456789'' ! (n mod 10)])"

declare str_nat.simps [simp del]

definition str :: "int \<Rightarrow> string" where
  "str k = (if k < 0 then CHR ''-'' # str_nat (nat (- k)) else str_nat (nat k))"

section \<open>show\_article\<close>

text \<open>
  \<^verbatim>\<open>_IMAGES_PATH = "./recursos/datos/images"\<close>. An image is known by the file it was
  decoded from and by its pixel size; the file system is a map from the paths of the
  image files that exist to their images.
\<close>

definition IMAGES_PATH :: string where
  "IMAGES_PATH = ''./recursos/datos/images''"

record image =
  im_file :: string
  im_size :: "int \<times> int"

text \<open>\<^verbatim>\<open>Image.resize(size)\<close>: a new image of the requested size; the library rejects a
  size with a side below one pixel.\<close>

definition resize :: "image \<Rightarrow> int \<times> int \<Rightarrow> py_error + image" where
  "resize im sz =
     (if im_size im = sz then Inr im
      else if fst sz < 1 \<or> snd sz < 1 then Inl ValueError
      else Inr (im\<lparr>im_size := sz\<rparr>))"

text \<open>
  \<^verbatim>\<open>def show_article(article_id: str, size: Tuple[int, int] = (200, 200)) -> Image\<close>.
  The optional argument is \<^term>\<open>None\<close> when the caller leaves it out.
\<close>

definition show_article ::
  "(string \<rightharpoonup> image) \<Rightarrow> string \<Rightarrow> (int \<times> int) option \<Rightarrow> py_error + image" where
  "show_article fs article_id size_arg =
     (let sz = (case size_arg of None \<Rightarrow> (200, 200) | Some s \<Rightarrow> s);
          three_digits_code = take 3 article_id
      in case fs (IMAGES_PATH @ ''/'' @ three_digits_code @ ''/'' @ article_id @ ''.jpg'') of
           None \<Rightarrow> Inl FileNotFoundError
         | Some im \<Rightarrow> resize im sz)"

section \<open>Data frames of get\_metrics\<close>

text \<open>
  \<^verbatim>\<open>recommendations\<close> has the columns \<open>customer_id\<close>, \<open>article_id\<close> and the column named
  by \<open>sort_column\<close>; a row of it is a \<open>rec_row\<close>. \<^verbatim>\<open>true_labels\<close> has the two key
  columns and either nothing else or the column \<open>interested\<close>, whose cells may be NaN.
  \<^verbatim>\<open>articles_df\<close> is a list of index label and feature vector, in the order of the
  frame. The name of the customer column (the parameter \<open>customer_id\<close>) is the same in
  both frames and differs from \<open>article_id\<close>, \<open>interested\<close> and \<open>sort_column\<close>.
\<close>

record rec_row =
  cid :: int
  article_id :: string
  sort_val :: real

datatype true_labels_df =
    Keys_only "(int \<times> string) list"
  | With_interested "(int \<times> string \<times> real option) list"

text \<open>A row of \<^verbatim>\<open>recs\<close> once \<^verbatim>\<open>recs["interested"]\<close> is filled.\<close>

record recs_row = rec_row +
  interested :: real

record summary =
  s_index :: "string list"
  s_columns :: "(string \<times> string) list"
  s_data :: "real option list list"

subsection \<open>pandas primitives\<close>

text \<open>
  \<^verbatim>\<open>pd.merge(left, right, how="left", on=[customer_id, "article_id"])\<close>: the rows of
  \<open>left\<close> in their order, each once per matching row of \<open>right\<close> (in the order of
  \<open>right\<close>) with that row's value, or once with a missing value when nothing matches.
\<close>

definition matched :: "(int \<times> string \<times> 'v) list \<Rightarrow> rec_row \<Rightarrow> 'v option list" where
  "matched right r =
     (case filter (\<lambda>(c, a, v). c = cid r \<and> a = article_id r) right of
        [] \<Rightarrow> [None]
      | ms \<Rightarrow> map (\<lambda>(c, a, v). Some v) ms)"

definition merge_left :: "rec_row list \<Rightarrow> (int \<times> string \<times> 'v) list \<Rightarrow> (rec_row \<times> 'v option) list" where
  "merge_left left right = concat (map (\<lambda>r. map (Pair r) (matched right r)) left)"

definition fillna :: "real \<Rightarrow> real option \<Rightarrow> real" where
  "fillna v x = (case x of None \<Rightarrow> v | Some y \<Rightarrow> y)"

definition with_interested :: "rec_row \<Rightarrow> real \<Rightarrow> recs_row" where
  "with_interested r l =
     \<lparr>cid = cid r, article_id = article_id r, sort_val = sort_val r, interested = l\<rparr>"

text \<open>
  Lines 72 and 84: the merge, then \<^verbatim>\<open>recs["interested"] = recs["interested"].fillna(value=0)\<close>.
  The merged frame has a column \<open>interested\<close> when \<open>true_labels\<close> brings it and the
  sort column has another name (two columns of that name are renamed \<open>interested_x\<close>
  and \<open>interested_y\<close> by the merge), or when \<open>true_labels\<close> has no such column and the
  sort column itself is called \<open>interested\<close>. Otherwise the lookup raises KeyError.
\<close>

definition interested_filled ::
  "rec_row list \<Rightarrow> true_labels_df \<Rightarrow> string \<Rightarrow> py_error + recs_row list" where
  "interested_filled recommendations true_labels sort_column =
     (case true_labels of
        With_interested rows \<Rightarrow>
          if sort_column = ''interested'' then Inl KeyError
          else Inr (map (\<lambda>(r, m). with_interested r
                      (fillna 0 (case m of None \<Rightarrow> None | Some v \<Rightarrow> v)))
                    (merge_left recommendations rows))
      | Keys_only keys \<Rightarrow>
          if sort_column = ''interested''
          then Inr (map (\<lambda>(r, m). with_interested r (fillna 0 (Some (sort_val r))))
                    (merge_left recommendations (map (\<lambda>(c, a). (c, a, ())) keys)))
          else Inl KeyError)"

text \<open>\<^verbatim>\<open>Series.nunique()\<close>, \<^verbatim>\<open>Series.unique()\<close> (order of first appearance),
  \<^verbatim>\<open>groupby\<close> (groups in ascending key order, rows in frame order).\<close>

definition nunique :: "'a list \<Rightarrow> nat" where
  "nunique xs = length (remdups xs)"

definition unique :: "'a list \<Rightarrow> 'a list" where
  "unique xs = rev (remdups (rev xs))"

definition groupby :: "('r \<Rightarrow> int) \<Rightarrow> 'r list \<Rightarrow> (int \<times> 'r list) list" where
  "groupby key rows =
     map (\<lambda>c. (c, filter (\<lambda>r. key r = c) rows)) (sort (remdups (map key rows)))"

text \<open>The mean of a group (never empty), and \<^verbatim>\<open>Series.mean()\<close> and
  \<^verbatim>\<open>Series.std()\<close> (sample standard deviation, \<open>ddof = 1\<close>) of a series without NaN:
  NaN on an empty series, and for \<open>std\<close> also on a series of one value.\<close>

definition mean_list :: "real list \<Rightarrow> real" where
  "mean_list xs = sum_list xs / real (length xs)"

definition series_mean :: "real list \<Rightarrow> real option" where
  "series_mean xs = (if xs = [] then None else Some (mean_list xs))"

definition series_std :: "real list \<Rightarrow> real option" where
  "series_std xs =
     (if length xs < 2 then None
      else Some (sqrt (sum_list (map (\<lambda>x. (x - mean_list xs)\<^sup>2) xs) / real (length xs - 1))))"

text \<open>\<^verbatim>\<open>sort_values(by=[customer_id, sort_column], ascending=[False, False])\<close>: a stable
  sort, both keys descending.\<close>

definition sort_values :: "recs_row list \<Rightarrow> recs_row list" where
  "sort_values recs = sort_key (\<lambda>r. (- cid r, - sort_val r)) recs"

text \<open>\<^verbatim>\<open>x.expanding(1).sum()\<close> and \<^verbatim>\<open>x.expanding(1).count()\<close> on a column without
  missing values: the running sums, and the running number of rows.\<close>

fun running_sum :: "real \<Rightarrow> real list \<Rightarrow> real list" where
  "running_sum acc [] = []"
| "running_sum acc (x # xs) = (acc + x) # running_sum (acc + x) xs"

definition expanding_sum :: "real list \<Rightarrow> real list" where
  "expanding_sum xs = running_sum 0 xs"

definition expanding_count :: "'a list \<Rightarrow> real list" where
  "expanding_count xs = running_sum 0 (map (\<lambda>_. 1) xs)"

text \<open>\<^verbatim>\<open>groupby(key)[col].transform(f)\<close>: \<open>f\<close> runs on the column of each group, and each
  row of the frame receives the value at its own position within its group.\<close>

definition transform :: "('r \<Rightarrow> int) \<Rightarrow> ('r \<Rightarrow> 'c) \<Rightarrow> ('c list \<Rightarrow> real list) \<Rightarrow> 'r list \<Rightarrow> real list" where
  "transform key col f rows =
     map (\<lambda>i. f (map col (filter (\<lambda>r. key r = key (rows ! i)) rows))
                ! length (filter (\<lambda>r. key r = key (rows ! i)) (take i rows)))
         [0..<length rows]"

text \<open>The nearest integer, a tie going to the even one.\<close>

definition round_half_even :: "real \<Rightarrow> int" where
  "round_half_even x =
     (let f = \<lfloor>x\<rfloor>; d = x - of_int f
      in if d < 1 / 2 then f
         else if 1 / 2 < d then f + 1
         else if even f then f else f + 1)"

text \<open>
  A Python float is an IEEE 754 double: a significand of 53 bits, and every operation
  returns the double nearest to the exact result, a tie going to the even significand.
  \<open>fl x\<close> is the double nearest to the real \<open>x\<close>: for \<open>2 ^ e \<le> \<bar>x\<bar> < 2 ^ (e + 1)\<close>
  the doubles are the multiples of \<open>2 ^ (e - 52)\<close>. The range of the exponent is not
  bounded here; a quotient of two row counts and its product by 100 stay far inside
  the range of the format.
\<close>

definition fl :: "real \<Rightarrow> real" where
  "fl x =
     (if x = 0 then 0
      else let ulp = 2 powi (\<lfloor>log 2 \<bar>x\<bar>\<rfloor> - 52)
           in of_int (round_half_even (x / ulp)) * ulp)"

text \<open>
  Python's \<^verbatim>\<open>round(x, ndigits)\<close> on a float: the exact value of the double \<open>x\<close> is
  rounded to the nearest multiple of \<open>10 ^ -ndigits\<close>, a tie going to the even
  multiple, and the result is the double nearest to that decimal.
\<close>

definition py_round :: "real \<Rightarrow> nat \<Rightarrow> real" where
  "py_round x ndigits = fl (of_int (round_half_even (x * 10 ^ ndigits)) / 10 ^ ndigits)"

subsection \<open>Similarity of feature vectors\<close>

text \<open>
  \<^verbatim>\<open>sklearn.metrics.pairwise.cosine_similarity(X)\<close>: every row is divided by its
  Euclidean norm (a row of norm zero is left as it is), and the result is the matrix
  of the dot products of the normalised rows. The call raises ValueError on a matrix
  without rows or without columns.
\<close>

definition l2_norm :: "real list \<Rightarrow> real" where
  "l2_norm v = sqrt (sum_list (map (\<lambda>x. x * x) v))"

definition normalize :: "real list \<Rightarrow> real list" where
  "normalize v = (let n = l2_norm v in map (\<lambda>x. x / (if n = 0 then 1 else n)) v)"

definition dot :: "real list \<Rightarrow> real list \<Rightarrow> real" where
  "dot u v = sum_list (map2 (*) u v)"

definition cosine_similarity :: "real list list \<Rightarrow> py_error + real list list" where
  "cosine_similarity X =
     (if X = [] then Inl ValueError
      else if hd X = [] then Inl ValueError
      else let X_normalized = map normalize X
           in Inr (map (\<lambda>u. map (\<lambda>v. dot u v) X_normalized) X_normalized))"

text \<open>
  Lines 125 to 131: \<^verbatim>\<open>pd.DataFrame(data=prods_sim, columns=labels, index=labels)\<close>
  raises ValueError when the matrix has not as many rows and columns as there are
  labels; \<^verbatim>\<open>unstack().reset_index()\<close> then lists, column by column, the column
  label, the row label and the cell.
\<close>

definition sims_frame ::
  "real list list \<Rightarrow> string list \<Rightarrow> py_error + (string \<times> string \<times> real) list" where
  "sims_frame prods_sim labels =
     (if length prods_sim \<noteq> length labels then Inl ValueError
      else Inr (concat (map (\<lambda>j. map (\<lambda>i. (labels ! j, labels ! i, prods_sim ! i ! j))
                                      [0..<length labels])
                            [0..<length labels])))"

text \<open>\<^verbatim>\<open>itertools.combinations(x, 2)\<close>.\<close>

fun combinations2 :: "'a list \<Rightarrow> ('a \<times> 'a) list" where
  "combinations2 [] = []"
| "combinations2 (x # xs) = map (Pair x) xs @ combinations2 xs"

text \<open>
  \<^verbatim>\<open>recs.explode("combs")\<close> gives one row per pair and, for an empty list of pairs,
  one row whose cell is NaN. \<^verbatim>\<open>recs["aid_01"], recs["aid_02"] = zip(*recs["combs"])\<close>
  then iterates over every cell: a NaN cell is a float, which \<^verbatim>\<open>zip\<close> refuses with
  TypeError, and on a frame without rows the unpacking of the empty \<^verbatim>\<open>zip\<close> raises
  ValueError.
\<close>

definition explode :: "(int \<times> 'p list) list \<Rightarrow> (int \<times> 'p option) list" where
  "explode rows =
     concat (map (\<lambda>(c, ps). if ps = [] then [(c, None)] else map (\<lambda>p. (c, Some p)) ps) rows)"

definition zip_star :: "(int \<times> 'p option) list \<Rightarrow> py_error + (int \<times> 'p) list" where
  "zip_star rows =
     (if \<exists>row \<in> set rows. snd row = None then Inl TypeError
      else if rows = [] then Inl ValueError
      else Inr (map (\<lambda>(c, p). (c, the p)) rows))"

text \<open>\<^verbatim>\<open>pd.merge(left=recs, right=sims_df, how="inner", on=["aid_01", "aid_02"])\<close>,
  keeping the customer and the score.\<close>

definition merge_inner ::
  "(int \<times> string \<times> string) list \<Rightarrow> (string \<times> string \<times> real) list \<Rightarrow> (int \<times> real) list" where
  "merge_inner left right =
     concat (map (\<lambda>(c, a, b).
       map (\<lambda>(x, y, score). (c, score)) (filter (\<lambda>(x, y, score). x = a \<and> y = b) right)) left)"

subsection \<open>The per-customer series\<close>

definition prec_xcid :: "recs_row list \<Rightarrow> (int \<times> real) list" where
  "prec_xcid recs = map (\<lambda>(c, g). (c, mean_list (map interested g))) (groupby cid recs)"

definition rec_xcid :: "recs_row list \<Rightarrow> (int \<times> real) list" where
  "rec_xcid recs = map (\<lambda>(c, g). (c, sum_list (map interested g) / 10)) (groupby cid recs)"

text \<open>Lines 102 to 112, on the sorted frame: the two expanding columns, their
  quotient times the label, and the mean of that column per customer.\<close>

definition intra_map_at_k :: "recs_row list \<Rightarrow> real list" where
  "intra_map_at_k recs =
     (let expanding_rolling_sum = transform cid interested expanding_sum recs;
          expanding_rolling_count = transform cid article_id expanding_count recs
      in map2 (*) (map2 (/) expanding_rolling_sum expanding_rolling_count) (map interested recs))"

definition map_xcid :: "recs_row list \<Rightarrow> (int \<times> real) list" where
  "map_xcid recs =
     map (\<lambda>(c, g). (c, mean_list (map snd g)))
       (groupby (\<lambda>row. cid (fst row)) (zip recs (intra_map_at_k recs)))"

text \<open>Lines 122 to 144, on the sorted frame.\<close>

definition diversity_x_cid ::
  "recs_row list \<Rightarrow> (string \<times> real list) list \<Rightarrow> py_error + (int \<times> real) list" where
  "diversity_x_cid recs articles_df =
     (let labels = unique (map article_id recs)
      in case cosine_similarity (map snd (filter (\<lambda>(a, v). a \<in> set labels) articles_df)) of
           Inl e \<Rightarrow> Inl e
         | Inr prods_sim \<Rightarrow>
             (case sims_frame prods_sim labels of
                Inl e \<Rightarrow> Inl e
              | Inr sims_df \<Rightarrow>
                  (let lists = map (\<lambda>(c, g). (c, map article_id g)) (groupby cid recs);
                       combs = map (\<lambda>(c, x). (c, combinations2 x)) lists
                   in case zip_star (explode combs) of
                        Inl e \<Rightarrow> Inl e
                      | Inr pairs \<Rightarrow>
                          Inr (map (\<lambda>(c, g). (c, 1 - mean_list (map snd g)))
                                 (groupby fst (merge_inner pairs sims_df))))))"

section \<open>get\_metrics\<close>

text \<open>
  The function follows the source line by line: the merge and the label column, the
  catalog coverage, precision, recall, the sort and MAP, then diversity. The columns
  and the single data row of the summary grow in that order, and nothing is returned
  when a step raises. Line 79 divides two Python ints, which raises on a zero divisor
  and otherwise gives the double nearest to the quotient; line 81 multiplies that
  double by 100, a second rounding, before \<^verbatim>\<open>round\<close>.
\<close>

definition get_metrics ::
  "string \<Rightarrow> rec_row list \<Rightarrow> true_labels_df \<Rightarrow> (string \<times> real list) list \<Rightarrow> string \<Rightarrow> int
     \<Rightarrow> py_error + summary" where
  "get_metrics name recommendations true_labels articles_df sort_column k =
     (if nunique (map fst articles_df) = 0 then Inl ZeroDivisionError
      else
        let cat_cov = fl (real (nunique (map article_id recommendations))
                            / real (nunique (map fst articles_df)))
        in case interested_filled recommendations true_labels sort_column of
             Inl e \<Rightarrow> Inl e
           | Inr recs \<Rightarrow>
               (let prec = map snd (prec_xcid recs);
                    rec = map snd (rec_xcid recs);
                    sorted_recs = sort_values recs;
                    maps = map snd (map_xcid sorted_recs)
                in case diversity_x_cid sorted_recs articles_df of
                     Inl e \<Rightarrow> Inl e
                   | Inr diversity \<Rightarrow>
                       Inr \<lparr>s_index = [name],
                            s_columns =
                              [(''General'', ''Catalog coverage (%)''),
                               (''Precision@'' @ str k, ''mean''), (''Precision@'' @ str k, ''std''),
                               (''Recall@'' @ str k, ''mean''), (''Recall@'' @ str k, ''std''),
                               (''MAP@'' @ str k, ''mean''), (''MAP@'' @ str k, ''std''),
                               (''Diversity'', ''mean''), (''Diversity'', ''std'')],
                            s_data =
                              [[Some (py_round (fl (100 * cat_cov)) 4),
                                series_mean prec, series_std prec,
                                series_mean rec, series_std rec,
                                series_mean maps, series_std maps,
                                series_mean (map snd diversity),
                                series_std (map snd diversity)]]\<rparr>))"

text \<open>The cell of the summary row under a column label: \<^term>\<open>Some None\<close> is a NaN cell,
  \<^term>\<open>None\<close> a label that the summary does not have.\<close>

definition cell :: "summary \<Rightarrow> string \<times> string \<Rightarrow> real option option" where
  "cell s col = map_of (zip (s_columns s) (hd (s_data s))) col"

section \<open>The worked example of the specification\<close>

text \<open>
  Two recommendations for customer 1, of which the first is a true positive. The label
  frame is given once as the specification writes it (keys only) and once with the
  label column that the code reads. The specification names no catalog; the one here
  has the two articles with orthogonal features.
\<close>

definition example_recommendations :: "rec_row list" where
  "example_recommendations =
     [\<lparr>cid = 1, article_id = ''A01'', sort_val = 1\<rparr>,
      \<lparr>cid = 1, article_id = ''A02'', sort_val = 2\<rparr>]"

definition example_keys :: true_labels_df where
  "example_keys = Keys_only [(1, ''A01'')]"

definition example_true_labels :: true_labels_df where
  "example_true_labels = With_interested [(1, ''A01'', Some 1)]"

definition example_articles :: "(string \<times> real list) list" where
  "example_articles = [(''A01'', [1, 0]), (''A02'', [0, 1])]"

definition example_summary :: summary where
  "example_summary =
     \<lparr>s_index = [''m''],
      s_columns =
        [(''General'', ''Catalog coverage (%)''),
         (''Precision@5'', ''mean''), (''Precision@5'', ''std''),
         (''Recall@5'', ''mean''), (''Recall@5'', ''std''),
         (''MAP@5'', ''mean''), (''MAP@5'', ''std''),
         (''Diversity'', ''mean''), (''Diversity'', ''std'')],
      s_data = [[Some 100, Some (1 / 2), None, Some (1 / 10), None, Some (1 / 4), None,
                 Some 1, None]]\<rparr>"

definition example_recommendations_swapped :: "rec_row list" where
  "example_recommendations_swapped =
     [\<lparr>cid = 1, article_id = ''A01'', sort_val = 2\<rparr>,
      \<lparr>cid = 1, article_id = ''A02'', sort_val = 1\<rparr>]"

definition example_summary_swapped :: summary where
  "example_summary_swapped =
     \<lparr>s_index = [''m''],
      s_columns =
        [(''General'', ''Catalog coverage (%)''),
         (''Precision@5'', ''mean''), (''Precision@5'', ''std''),
         (''Recall@5'', ''mean''), (''Recall@5'', ''std''),
         (''MAP@5'', ''mean''), (''MAP@5'', ''std''),
         (''Diversity'', ''mean''), (''Diversity'', ''std'')],
      s_data = [[Some 100, Some (1 / 2), None, Some (1 / 10), None, Some (1 / 2), None,
                 Some 1, None]]\<rparr>"

section \<open>The metrics in the words of the specification\<close>

text \<open>
  These definitions follow the prose of the specification and are compared with the
  code below. The customers are those of the recommendations. A recommendation joined
  to the true labels gives one label per matching row of the label frame (a missing
  label counts as 0) and the single label 0 when nothing matches. The joined rows of a
  customer are kept as pairs of sort value and label.
\<close>

definition spec_customers :: "rec_row list \<Rightarrow> int list" where
  "spec_customers recommendations = sorted_list_of_set (cid ` set recommendations)"

definition spec_labels :: "(int \<times> string \<times> real option) list \<Rightarrow> rec_row \<Rightarrow> real list" where
  "spec_labels true_rows r =
     (let hits = filter (\<lambda>t. fst t = cid r \<and> fst (snd t) = article_id r) true_rows
      in if hits = [] then [0]
         else map (\<lambda>t. case snd (snd t) of None \<Rightarrow> 0 | Some l \<Rightarrow> l) hits)"

definition spec_customer_rows ::
  "(int \<times> string \<times> real option) list \<Rightarrow> rec_row list \<Rightarrow> int \<Rightarrow> (real \<times> real) list" where
  "spec_customer_rows true_rows recommendations c =
     concat (map (\<lambda>r. map (Pair (sort_val r)) (spec_labels true_rows r))
                 (filter (\<lambda>r. cid r = c) recommendations))"


definition spec_recall :: "(int \<times> string \<times> real option) list \<Rightarrow> rec_row list \<Rightarrow> int \<Rightarrow> real" where
  "spec_recall true_rows recommendations c =
     sum_list (map snd (spec_customer_rows true_rows recommendations c)) / 10"

text \<open>
  MAP: the joined rows of the customer are ranked by descending sort value (rows of
  equal value keep their order); the running precision at a position is the sum of the
  labels up to and including it over the number of rows seen so far; the average
  precision is the mean over the positions of running precision times label.
\<close>

definition spec_running_precision :: "real list \<Rightarrow> nat \<Rightarrow> real" where
  "spec_running_precision labels i = sum_list (take (Suc i) labels) / real (Suc i)"

definition spec_average_precision :: "real list \<Rightarrow> real" where
  "spec_average_precision labels =
     sum_list (map (\<lambda>i. spec_running_precision labels i * labels ! i) [0..<length labels])
       / real (length labels)"

definition spec_ranked_labels ::
  "(int \<times> string \<times> real option) list \<Rightarrow> rec_row list \<Rightarrow> int \<Rightarrow> real list" where
  "spec_ranked_labels true_rows recommendations c =
     map snd (sort_key (\<lambda>p. - fst p) (spec_customer_rows true_rows recommendations c))"

definition spec_map :: "(int \<times> string \<times> real option) list \<Rightarrow> rec_row list \<Rightarrow> int \<Rightarrow> real" where
  "spec_map true_rows recommendations c =
     spec_average_precision (spec_ranked_labels true_rows recommendations c)"

text \<open>
  Across customers: the mean of the per-customer values, and their standard deviation,
  which is the sample one (the squared deviations from the mean are summed and divided
  by the number of customers less one) and needs two customers.
\<close>

definition spec_mean :: "real list \<Rightarrow> real" where
  "spec_mean xs = sum_list xs / real (length xs)"

definition spec_std :: "real list \<Rightarrow> real" where
  "spec_std xs = sqrt (sum_list (map (\<lambda>x. (x - spec_mean xs)\<^sup>2) xs) / (real (length xs) - 1))"

text \<open>
  Catalog coverage: the number of distinct recommended articles over the number of
  distinct articles of the items table, as an exact ratio.
\<close>

definition spec_coverage :: "rec_row list \<Rightarrow> (string \<times> real list) list \<Rightarrow> real" where
  "spec_coverage recommendations articles_df =
     real (card (article_id ` set recommendations)) / real (card (fst ` set articles_df))"

text \<open>
  Diversity: the mean, over the unordered pairs of the articles recommended to the
  customer, of one minus the cosine similarity of the feature vectors of the pair.
\<close>

definition spec_cosine :: "real list \<Rightarrow> real list \<Rightarrow> real" where
  "spec_cosine u v = dot u v / (l2_norm u * l2_norm v)"

definition spec_diversity :: "(string \<times> real list) list \<Rightarrow> rec_row list \<Rightarrow> int \<Rightarrow> real" where
  "spec_diversity articles_df recommendations c =
     (let aids = map article_id (filter (\<lambda>r. cid r = c) recommendations);
          pairs = combinations2 aids
      in mean_list (map (\<lambda>(a, b). 1 - spec_cosine (the (map_of articles_df a))
                                                   (the (map_of articles_df b))) pairs))"

section \<open>Valid inputs\<close>

text \<open>
  The inputs on which the function is shown to return: there is a recommendation; the
  label frame has the column \<open>interested\<close> and the sort column has another name; the
  index of the items table is unique and holds every recommended article; the items
  table is rectangular with at least one feature column; every customer has at least
  two recommendations.
\<close>

definition valid_input ::
  "rec_row list \<Rightarrow> true_labels_df \<Rightarrow> (string \<times> real list) list \<Rightarrow> string \<Rightarrow> bool" where
  "valid_input recommendations true_labels articles_df sort_column \<longleftrightarrow>
     recommendations \<noteq> []
   \<and> (case true_labels of With_interested rows \<Rightarrow> True | Keys_only keys \<Rightarrow> False)
   \<and> sort_column \<noteq> ''interested''
   \<and> distinct (map fst articles_df)
   \<and> (\<forall>r \<in> set recommendations. article_id r \<in> fst ` set articles_df)
   \<and> (\<forall>row \<in> set articles_df. snd row \<noteq> []
          \<and> length (snd row) = length (snd (hd articles_df)))
   \<and> (\<forall>r \<in> set recommendations.
         2 \<le> length (filter (\<lambda>r'. cid r' = cid r) recommendations))"

section \<open>The score that the diversity step reads\<close>

text \<open>
  The similarity frame is labelled with the article ids in the order of their first
  appearance in the sorted recommendations, while the matrix it holds is computed on
  the selected rows of the items table in the order of that table. The score merged
  onto a pair of articles is therefore the similarity of the two items rows found at
  the positions that the articles have among the labels.
\<close>

fun position :: "'a \<Rightarrow> 'a list \<Rightarrow> nat" where
  "position x [] = 0"
| "position x (y # ys) = (if x = y then 0 else Suc (position x ys))"

definition read_similarity :: "recs_row list \<Rightarrow> (string \<times> real list) list \<Rightarrow> string \<Rightarrow> string \<Rightarrow> real" where
  "read_similarity recs articles_df a b =
     (let labels = unique (map article_id recs);
          X = map snd (filter (\<lambda>(a, v). a \<in> set labels) articles_df)
      in dot (normalize (X ! position b labels)) (normalize (X ! position a labels)))"

section \<open>Further example data\<close>

text \<open>
  Four customers with two recommendations each, the rows of the customers interleaved
  and the article with the smaller sort value first. Customers 1, 3 and 4 have bought
  \<open>A01\<close>, which is recommended to them; customer 2 has bought \<open>A03\<close>, which is not
  recommended to anyone. The label frame is given with the label column and with the
  keys only.
\<close>

definition four_recommendations :: "rec_row list" where
  "four_recommendations =
     [\<lparr>cid = 3, article_id = ''A01'', sort_val = 1\<rparr>,
      \<lparr>cid = 1, article_id = ''A01'', sort_val = 1\<rparr>,
      \<lparr>cid = 4, article_id = ''A01'', sort_val = 1\<rparr>,
      \<lparr>cid = 2, article_id = ''A01'', sort_val = 1\<rparr>,
      \<lparr>cid = 1, article_id = ''A02'', sort_val = 2\<rparr>,
      \<lparr>cid = 2, article_id = ''A02'', sort_val = 2\<rparr>,
      \<lparr>cid = 3, article_id = ''A02'', sort_val = 2\<rparr>,
      \<lparr>cid = 4, article_id = ''A02'', sort_val = 2\<rparr>]"

definition four_true_rows :: "(int \<times> string \<times> real option) list" where
  "four_true_rows =
     [(1, ''A01'', Some 1), (2, ''A03'', Some 1), (3, ''A01'', Some 1), (4, ''A01'', Some 1)]"


definition four_joined :: "recs_row list" where
  "four_joined =
     [\<lparr>cid = 3, article_id = ''A01'', sort_val = 1, interested = 1\<rparr>,
      \<lparr>cid = 1, article_id = ''A01'', sort_val = 1, interested = 1\<rparr>,
      \<lparr>cid = 4, article_id = ''A01'', sort_val = 1, interested = 1\<rparr>,
      \<lparr>cid = 2, article_id = ''A01'', sort_val = 1, interested = 0\<rparr>,
      \<lparr>cid = 1, article_id = ''A02'', sort_val = 2, interested = 0\<rparr>,
      \<lparr>cid = 2, article_id = ''A02'', sort_val = 2, interested = 0\<rparr>,
      \<lparr>cid = 3, article_id = ''A02'', sort_val = 2, interested = 0\<rparr>,
      \<lparr>cid = 4, article_id = ''A02'', sort_val = 2, interested = 0\<rparr>]"

definition four_summary :: summary where
  "four_summary =
     \<lparr>s_index = [''m''],
      s_columns =
        [(''General'', ''Catalog coverage (%)''),
         (''Precision@5'', ''mean''), (''Precision@5'', ''std''),
         (''Recall@5'', ''mean''), (''Recall@5'', ''std''),
         (''MAP@5'', ''mean''), (''MAP@5'', ''std''),
         (''Diversity'', ''mean''), (''Diversity'', ''std'')],
      s_data = [[Some 100, Some (3 / 8), Some (1 / 4), Some (3 / 40), Some (1 / 20),
                 Some (3 / 16), Some (1 / 8), Some 1, Some 0]]\<rparr>"

text \<open>
  A catalog of 640 articles named \<open>a\<close>, \<open>aa\<close>, \<open>aaa\<close> and so on, each with one feature,
  and one customer who is recommended the first 23 of them.
\<close>

definition wide_articles :: "(string \<times> real list) list" where
  "wide_articles = map (\<lambda>i. (replicate (Suc i) CHR ''a'', [1])) [0..<640]"

definition wide_recommendations :: "rec_row list" where
  "wide_recommendations =
     map (\<lambda>i. \<lparr>cid = 1, article_id = replicate (Suc i) CHR ''a'', sort_val = real i\<rparr>) [0..<23]"

text \<open>
  A catalog of three articles, of which \<open>A01\<close> and \<open>A02\<close> have the same features and
  \<open>A03\<close> is orthogonal to both. Customer 2 is recommended \<open>A03\<close> and \<open>A02\<close>, customer 1
  \<open>A03\<close> and \<open>A01\<close>: each has one pair, of orthogonal articles.
\<close>

definition diverse_articles :: "(string \<times> real list) list" where
  "diverse_articles = [(''A01'', [1, 0]), (''A02'', [1, 0]), (''A03'', [0, 1])]"

definition diverse_recommendations :: "rec_row list" where
  "diverse_recommendations =
     [\<lparr>cid = 2, article_id = ''A03'', sort_val = 2\<rparr>,
      \<lparr>cid = 2, article_id = ''A02'', sort_val = 1\<rparr>,
      \<lparr>cid = 1, article_id = ''A03'', sort_val = 2\<rparr>,
      \<lparr>cid = 1, article_id = ''A01'', sort_val = 1\<rparr>]"

section \<open>Rounding\<close>

lemma round_half_even_error: "\<bar>x - of_int (round_half_even x)\<bar> \<le> 1 / 2"
  unfolding round_half_even_def Let_def by (auto; linarith)

lemma round_half_even_tie:
  assumes "\<bar>x - of_int (round_half_even x)\<bar> = 1 / 2"
  shows "even (round_half_even x)"
proof -
  have "x - of_int \<lfloor>x\<rfloor> < 1 / 2 \<or> 1 / 2 < x - of_int \<lfloor>x\<rfloor> \<or> x - of_int \<lfloor>x\<rfloor> = 1 / 2"
    by linarith
  then show ?thesis
  proof (elim disjE)
    assume "x - of_int \<lfloor>x\<rfloor> < 1 / 2"
    then have "round_half_even x = \<lfloor>x\<rfloor>"
      by (simp add: round_half_even_def)
    with assms \<open>x - of_int \<lfloor>x\<rfloor> < 1 / 2\<close> show ?thesis
      by (simp add: abs_if split: if_splits) linarith
  next
    assume a: "1 / 2 < x - of_int \<lfloor>x\<rfloor>"
    then have "round_half_even x = \<lfloor>x\<rfloor> + 1"
      by (simp add: round_half_even_def)
    with assms a show ?thesis
      by (simp add: abs_if split: if_splits)
  next
    assume "x - of_int \<lfloor>x\<rfloor> = 1 / 2"
    then have "round_half_even x = (if even \<lfloor>x\<rfloor> then \<lfloor>x\<rfloor> else \<lfloor>x\<rfloor> + 1)"
      by (simp add: round_half_even_def Let_def)
    then show ?thesis
      by simp
  qed
qed

text \<open>The double nearest to a real whose binary exponent is known.\<close>

lemma fl_eval:
  assumes "2 powi e \<le> \<bar>x\<bar>" and "\<bar>x\<bar> < 2 powi (e + 1)"
  shows "fl x = of_int (round_half_even (x / 2 powi (e - 52))) * 2 powi (e - 52)"
proof -
  have pos: "0 < \<bar>x\<bar>"
    using assms(1) by (smt (verit) zero_less_power_int)
  have "2 powr (real_of_int e + 1) = 2 powi (e + 1)"
    using powr_real_of_int' [of 2 "e + 1"] by simp
  then have "\<lfloor>log 2 \<bar>x\<bar>\<rfloor> = e"
    using floor_log_eq_powr_iff [of "\<bar>x\<bar>" 2 e] pos assms
    by (simp add: powr_real_of_int')
  then show ?thesis
    using pos by (simp add: fl_def Let_def)
qed

lemma fl_1: "fl 1 = 1"
  using fl_eval [of 0 1] by (simp add: round_half_even_def power_int_minus)

lemma fl_100: "fl 100 = 100"
  using fl_eval [of 6 100] by (simp add: round_half_even_def power_int_minus)

text \<open>The relative error of one rounding is at most \<open>2 ^ -53\<close>.\<close>

lemma fl_error: "\<bar>fl x - x\<bar> \<le> \<bar>x\<bar> / 2 ^ 53"
proof (cases "x = 0")
  case True
  then show ?thesis by (simp add: fl_def)
next
  case False
  define e where "e = \<lfloor>log 2 \<bar>x\<bar>\<rfloor>"
  define u :: real where "u = 2 powi (e - 52)"
  have u: "0 < u"
    by (simp add: u_def zero_less_power_int)
  have low: "2 powi e \<le> \<bar>x\<bar>"
    using floor_log_eq_powr_iff [of "\<bar>x\<bar>" 2 e] False
    by (simp add: e_def powr_real_of_int')
  have "fl x = of_int (round_half_even (x / u)) * u"
    using False by (simp add: fl_def Let_def e_def u_def)
  then have "fl x - x = (of_int (round_half_even (x / u)) - x / u) * u"
    using u by (simp add: algebra_simps)
  then have "\<bar>fl x - x\<bar> = \<bar>x / u - of_int (round_half_even (x / u))\<bar> * u"
    using u by (simp add: abs_mult abs_minus_commute)
  also have "\<dots> \<le> 1 / 2 * u"
    using round_half_even_error [of "x / u"] u by (intro mult_right_mono) simp_all
  also have "\<dots> = 2 powi e / 2 ^ 53"
    by (simp add: u_def power_int_diff)
  also have "\<dots> \<le> \<bar>x\<bar> / 2 ^ 53"
    using low by (intro divide_right_mono) simp_all
  finally show ?thesis .
qed

section \<open>Evaluation of the example\<close>

lemmas metrics_defs =
  get_metrics_def interested_filled_def merge_left_def matched_def with_interested_def fillna_def
  nunique_def prec_xcid_def rec_xcid_def groupby_def mean_list_def series_mean_def
  series_std_def sort_values_def map_xcid_def intra_map_at_k_def transform_def
  expanding_sum_def expanding_count_def diversity_x_cid_def unique_def
  cosine_similarity_def normalize_def l2_norm_def dot_def sims_frame_def explode_def
  zip_star_def merge_inner_def py_round_def round_half_even_def fl_1 fl_100 Let_def

lemma str_5: "str 5 = ''5''"
  by (simp add: str_def str_nat.simps)

lemma example_run:
  "get_metrics ''m'' example_recommendations example_true_labels example_articles ''rank'' 5
     = Inr example_summary"
  by (simp add: metrics_defs example_recommendations_def example_true_labels_def
      example_articles_def example_summary_def str_5)

lemma four_joined_run:
  "interested_filled four_recommendations (With_interested four_true_rows) ''score''
     = Inr four_joined"
  by (simp add: interested_filled_def merge_left_def matched_def with_interested_def fillna_def
      four_recommendations_def four_true_rows_def four_joined_def)

lemma four_sorted:
  "sort_values four_joined =
     [\<lparr>cid = 4, article_id = ''A02'', sort_val = 2, interested = 0\<rparr>,
      \<lparr>cid = 4, article_id = ''A01'', sort_val = 1, interested = 1\<rparr>,
      \<lparr>cid = 3, article_id = ''A02'', sort_val = 2, interested = 0\<rparr>,
      \<lparr>cid = 3, article_id = ''A01'', sort_val = 1, interested = 1\<rparr>,
      \<lparr>cid = 2, article_id = ''A02'', sort_val = 2, interested = 0\<rparr>,
      \<lparr>cid = 2, article_id = ''A01'', sort_val = 1, interested = 0\<rparr>,
      \<lparr>cid = 1, article_id = ''A02'', sort_val = 2, interested = 0\<rparr>,
      \<lparr>cid = 1, article_id = ''A01'', sort_val = 1, interested = 1\<rparr>]"
  by (simp add: sort_values_def four_joined_def)

lemma sqrt_square_values:
  "sqrt (1 / 16) = 1 / 4" "sqrt (1 / 400) = 1 / 20" "sqrt (1 / 64) = 1 / 8"
  using real_sqrt_abs [of "1 / 4"] real_sqrt_abs [of "1 / 20"] real_sqrt_abs [of "1 / 8"]
  by (simp_all add: power2_eq_square)

lemma four_run:
  "get_metrics ''m'' four_recommendations (With_interested four_true_rows) example_articles ''score'' 5
     = Inr four_summary"
proof -
  have catalog: "nunique (map fst example_articles) = 2"
    "nunique (map article_id four_recommendations) = 2"
    by (simp_all add: nunique_def example_articles_def four_recommendations_def)
  have prec: "map snd (prec_xcid four_joined) = [1 / 2, 0, 1 / 2, 1 / 2]"
    by (simp add: prec_xcid_def groupby_def mean_list_def four_joined_def)
  have rec: "map snd (rec_xcid four_joined) = [1 / 10, 0, 1 / 10, 1 / 10]"
    by (simp add: rec_xcid_def groupby_def four_joined_def)
  have maps: "map snd (map_xcid (sort_values four_joined)) = [1 / 4, 0, 1 / 4, 1 / 4]"
    unfolding four_sorted
    by (simp add: map_xcid_def intra_map_at_k_def transform_def expanding_sum_def
        expanding_count_def groupby_def mean_list_def Let_def)
  have div: "diversity_x_cid (sort_values four_joined) example_articles
      = Inr [(1, 1), (2, 1), (3, 1), (4, 1)]"
    unfolding four_sorted
    by (simp add: diversity_x_cid_def unique_def cosine_similarity_def normalize_def l2_norm_def
        dot_def sims_frame_def explode_def zip_star_def merge_inner_def groupby_def mean_list_def
        Let_def example_articles_def)
  show ?thesis
    unfolding get_metrics_def catalog four_joined_run
    by (simp add: prec rec maps div series_mean_def series_std_def mean_list_def
        py_round_def round_half_even_def fl_1 fl_100 four_summary_def str_5 power2_eq_square
        sqrt_square_values)
qed

section \<open>show\_article\<close>

text \<open>
  C8. For every article identifier, \<open>show_article\<close> opens the file whose path is the
  fixed base directory, the first three characters of the identifier as a
  subdirectory, and the identifier with the extension \<open>.jpg\<close>; when that file is an
  image, the result is this image at the pixel size the caller asks for (each side at
  least one pixel), and at 200 by 200 when the caller gives no size.
\<close>

theorem show_article_opens_sharded_path:
  assumes "fs (''./recursos/datos/images/'' @ take 3 aid @ ''/'' @ aid @ ''.jpg'') = Some im"
    and "1 \<le> w" and "1 \<le> h"
  shows "show_article fs aid (Some (w, h)) = Inr (im\<lparr>im_size := (w, h)\<rparr>)
       \<and> show_article fs aid None = Inr (im\<lparr>im_size := (200, 200)\<rparr>)"
  using assms by (cases im) (auto simp add: show_article_def IMAGES_PATH_def resize_def Let_def)

theorem show_article_opens_sharded_path_witness:
  "show_article
      [''./recursos/datos/images/010/0108775015.jpg''
         \<mapsto> \<lparr>im_file = ''0108775015.jpg'', im_size = (1166, 1750)\<rparr>]
      ''0108775015'' (Some (64, 96))
     = Inr \<lparr>im_file = ''0108775015.jpg'', im_size = (64, 96)\<rparr>
   \<and> show_article
      [''./recursos/datos/images/010/0108775015.jpg''
         \<mapsto> \<lparr>im_file = ''0108775015.jpg'', im_size = (1166, 1750)\<rparr>]
      ''0108775015'' None
     = Inr \<lparr>im_file = ''0108775015.jpg'', im_size = (200, 200)\<rparr>"
  using show_article_opens_sharded_path
    [of "[''./recursos/datos/images/010/0108775015.jpg''
            \<mapsto> \<lparr>im_file = ''0108775015.jpg'', im_size = (1166, 1750)\<rparr>]"
        "''0108775015''" "\<lparr>im_file = ''0108775015.jpg'', im_size = (1166, 1750)\<rparr>" 64 96]
  by simp

text \<open>No other file matters to the call, and a missing file is an error.\<close>

lemma show_article_reads_one_path:
  "fs (IMAGES_PATH @ ''/'' @ take 3 aid @ ''/'' @ aid @ ''.jpg'')
     = fs' (IMAGES_PATH @ ''/'' @ take 3 aid @ ''/'' @ aid @ ''.jpg'')
   \<Longrightarrow> show_article fs aid sz = show_article fs' aid sz"
  by (simp add: show_article_def)

lemma show_article_missing_file:
  "fs (IMAGES_PATH @ ''/'' @ take 3 aid @ ''/'' @ aid @ ''.jpg'') = None
   \<Longrightarrow> show_article fs aid sz = Inl FileNotFoundError"
  by (simp add: show_article_def)

section \<open>The parameter k\<close>

text \<open>
  C10. Two calls of \<open>get_metrics\<close> that differ only in \<open>k\<close> raise the same error or
  return summaries with the same index and the same data row; \<open>k\<close> appears in the
  column labels \<open>Precision@k\<close>, \<open>Recall@k\<close> and \<open>MAP@k\<close> and nowhere else.
\<close>

theorem k_only_labels_columns:
  "map_sum id (\<lambda>s. (s_index s, s_data s))
       (get_metrics name recommendations true_labels articles_df sort_column k)
     = map_sum id (\<lambda>s. (s_index s, s_data s))
       (get_metrics name recommendations true_labels articles_df sort_column k')
   \<and> map_sum id s_columns (get_metrics name recommendations true_labels articles_df sort_column k)
     = map_sum id (\<lambda>s. [(''General'', ''Catalog coverage (%)''),
                          (''Precision@'' @ str k, ''mean''), (''Precision@'' @ str k, ''std''),
                          (''Recall@'' @ str k, ''mean''), (''Recall@'' @ str k, ''std''),
                          (''MAP@'' @ str k, ''mean''), (''MAP@'' @ str k, ''std''),
                          (''Diversity'', ''mean''), (''Diversity'', ''std'')])
         (get_metrics name recommendations true_labels articles_df sort_column k')"
  by (simp add: get_metrics_def Let_def split: sum.splits)

section \<open>The joined frame\<close>

lemma matched_not_Nil [simp]: "matched right r \<noteq> []"
  by (simp add: matched_def split: list.splits)

lemma set_fst_merge_left: "fst ` set (merge_left left right) = set left"
proof -
  have "\<exists>m. m \<in> set (matched right r)" for r :: rec_row
    using matched_not_Nil [of right r] by (cases "matched right r") auto
  then show ?thesis
    by (auto simp: merge_left_def image_iff)
qed

text \<open>The merge keeps every recommendation, at least once, and adds no other row.\<close>

lemma interested_filled_rows:
  assumes "interested_filled recommendations true_labels sort_column = Inr recs"
  shows "(\<lambda>r. (cid r, article_id r, sort_val r)) ` set recs
           = (\<lambda>r. (cid r, article_id r, sort_val r)) ` set recommendations"
proof -
  have *: "(\<lambda>r. (cid r, article_id r, sort_val r))
             ` set (map (\<lambda>p. with_interested (fst p) (g p)) (merge_left recommendations right))
         = (\<lambda>r. (cid r, article_id r, sort_val r)) ` set recommendations"
    for g and right :: "(int \<times> string \<times> 'v) list"
  proof -
    have "(\<lambda>r. (cid r, article_id r, sort_val r))
            ` set (map (\<lambda>p. with_interested (fst p) (g p)) (merge_left recommendations right))
        = (\<lambda>r. (cid r, article_id r, sort_val r)) ` fst ` set (merge_left recommendations right)"
      by (simp add: image_image with_interested_def)
    then show ?thesis by (simp only: set_fst_merge_left)
  qed
  show ?thesis
  proof (cases true_labels)
    case (Keys_only keys)
    with assms have "recs = map (\<lambda>p. with_interested (fst p) (fillna 0 (Some (sort_val (fst p)))))
                    (merge_left recommendations (map (\<lambda>(c, a). (c, a, ())) keys))"
      by (auto simp: interested_filled_def case_prod_beta split: if_splits)
    then show ?thesis using * by simp
  next
    case (With_interested rows)
    with assms have "recs = map (\<lambda>p. with_interested (fst p)
                      (fillna 0 (case snd p of None \<Rightarrow> None | Some v \<Rightarrow> v)))
                    (merge_left recommendations rows)"
      by (auto simp: interested_filled_def case_prod_beta split: if_splits)
    then show ?thesis using * by simp
  qed
qed

lemma interested_filled_articles:
  assumes "interested_filled recommendations true_labels sort_column = Inr recs"
  shows "article_id ` set recs = article_id ` set recommendations"
proof -
  have "article_id ` set recs
      = (\<lambda>t. fst (snd t)) ` (\<lambda>r. (cid r, article_id r, sort_val r)) ` set recs"
    by (simp add: image_image)
  also have "\<dots> = (\<lambda>t. fst (snd t)) ` (\<lambda>r. (cid r, article_id r, sort_val r)) ` set recommendations"
    by (simp only: interested_filled_rows [OF assms])
  finally show ?thesis by (simp add: image_image)
qed

lemma interested_filled_customers:
  assumes "interested_filled recommendations true_labels sort_column = Inr recs"
  shows "cid ` set recs = cid ` set recommendations"
proof -
  have "cid ` set recs = fst ` (\<lambda>r. (cid r, article_id r, sort_val r)) ` set recs"
    by (simp add: image_image)
  also have "\<dots> = fst ` (\<lambda>r. (cid r, article_id r, sort_val r)) ` set recommendations"
    by (simp only: interested_filled_rows [OF assms])
  finally show ?thesis by (simp add: image_image)
qed

lemma interested_filled_error:
  "interested_filled recommendations true_labels sort_column = Inl e \<Longrightarrow> e = KeyError"
  by (auto simp: interested_filled_def split: true_labels_df.splits if_splits)

lemma matched_labels:
  "map (\<lambda>m. fillna 0 (case m of None \<Rightarrow> None | Some v \<Rightarrow> v)) (matched true_rows r)
     = spec_labels true_rows r"
proof -
  have eq: "(\<lambda>(c, a, v). c = cid r \<and> a = article_id r) = (\<lambda>t. fst t = cid r \<and> fst (snd t) = article_id r)"
    by (auto simp: fun_eq_iff)
  show ?thesis
    unfolding matched_def spec_labels_def eq Let_def
    by (cases "filter (\<lambda>t. fst t = cid r \<and> fst (snd t) = article_id r) true_rows")
       (auto simp: fillna_def case_prod_beta)
qed

lemma joined_concat:
  assumes "interested_filled recommendations (With_interested true_rows) sort_column = Inr recs"
  shows "recs = concat (map (\<lambda>r. map (with_interested r) (spec_labels true_rows r)) recommendations)"
proof -
  have "recs = map (\<lambda>p. with_interested (fst p)
                      (fillna 0 (case snd p of None \<Rightarrow> None | Some v \<Rightarrow> v)))
                    (merge_left recommendations true_rows)"
    using assms by (auto simp: interested_filled_def case_prod_beta split: if_splits)
  also have "\<dots> = concat (map (\<lambda>r. map (with_interested r)
        (map (\<lambda>m. fillna 0 (case m of None \<Rightarrow> None | Some v \<Rightarrow> v)) (matched true_rows r))) recommendations)"
    by (simp add: merge_left_def map_concat comp_def)
  finally show ?thesis by (simp only: matched_labels)
qed

lemma customer_rows_of_concat:
  "map (\<lambda>x. (sort_val x, interested x))
     (filter (\<lambda>x. cid x = c) (concat (map (\<lambda>r. map (with_interested r) (f r)) recommendations)))
   = concat (map (\<lambda>r. map (Pair (sort_val r)) (f r)) (filter (\<lambda>r. cid r = c) recommendations))"
proof (induction recommendations)
  case Nil
  show ?case by simp
next
  case (Cons r rs)
  have keep: "filter (\<lambda>x. cid x = c) (map (with_interested r) ls)
                = (if cid r = c then map (with_interested r) ls else [])" for ls
    by (induction ls) (auto simp: with_interested_def)
  show ?case
    using Cons.IH by (simp add: keep comp_def with_interested_def)
qed

lemma joined_customer_rows:
  assumes "interested_filled recommendations (With_interested true_rows) sort_column = Inr recs"
  shows "map (\<lambda>x. (sort_val x, interested x)) (filter (\<lambda>x. cid x = c) recs)
           = spec_customer_rows true_rows recommendations c"
  unfolding joined_concat [OF assms] spec_customer_rows_def
  by (rule customer_rows_of_concat)

lemma joined_customer_labels:
  assumes "interested_filled recommendations (With_interested true_rows) sort_column = Inr recs"
  shows "map interested (filter (\<lambda>x. cid x = c) recs)
           = map snd (spec_customer_rows true_rows recommendations c)"
proof -
  have "map interested (filter (\<lambda>x. cid x = c) recs)
      = map snd (map (\<lambda>x. (sort_val x, interested x)) (filter (\<lambda>x. cid x = c) recs))"
    by (simp add: comp_def)
  then show ?thesis by (simp only: joined_customer_rows [OF assms])
qed

lemma groupby_keys:
  "map fst (groupby key rows) = sorted_list_of_set (key ` set rows)"
  by (simp add: groupby_def comp_def sorted_list_of_set_sort_remdups flip: set_map)

lemma groupby_eq:
  "groupby key rows = map (\<lambda>c. (c, filter (\<lambda>r. key r = c) rows)) (sorted_list_of_set (key ` set rows))"
  by (simp add: groupby_def sorted_list_of_set_sort_remdups flip: set_map)


lemma rec_xcid_spec:
  assumes "interested_filled recommendations (With_interested true_rows) sort_column = Inr recs"
  shows "map snd (rec_xcid recs)
           = map (spec_recall true_rows recommendations) (spec_customers recommendations)"
proof -
  have "sum_list (map interested (filter (\<lambda>x. cid x = c) recs)) / 10
          = spec_recall true_rows recommendations c" for c
    unfolding joined_customer_labels [OF assms]
    by (simp add: spec_recall_def)
  then show ?thesis
    by (simp add: rec_xcid_def groupby_eq comp_def spec_customers_def
        interested_filled_customers [OF assms])
qed

lemma get_metrics_cells:
  assumes "get_metrics name recommendations true_labels articles_df sort_column k = Inr s"
  shows "\<exists>recs diversity.
           interested_filled recommendations true_labels sort_column = Inr recs
         \<and> diversity_x_cid (sort_values recs) articles_df = Inr diversity
         \<and> cell s (''Precision@'' @ str k, ''mean'') = Some (series_mean (map snd (prec_xcid recs)))
         \<and> cell s (''Precision@'' @ str k, ''std'') = Some (series_std (map snd (prec_xcid recs)))
         \<and> cell s (''Recall@'' @ str k, ''mean'') = Some (series_mean (map snd (rec_xcid recs)))
         \<and> cell s (''Recall@'' @ str k, ''std'') = Some (series_std (map snd (rec_xcid recs)))
         \<and> cell s (''MAP@'' @ str k, ''mean'')
             = Some (series_mean (map snd (map_xcid (sort_values recs))))
         \<and> cell s (''MAP@'' @ str k, ''std'')
             = Some (series_std (map snd (map_xcid (sort_values recs))))
         \<and> cell s (''Diversity'', ''mean'') = Some (series_mean (map snd diversity))
         \<and> cell s (''Diversity'', ''std'') = Some (series_std (map snd diversity))"
  using assms
  by (auto simp: get_metrics_def Let_def cell_def split: if_splits sum.splits)


section \<open>A label frame without the column interested\<close>

text \<open>
  C9 (as amended). For a label frame that has only the two key columns, and a sort
  column that is not itself called \<open>interested\<close>, \<open>get_metrics\<close> returns no summary: it
  raises ZeroDivisionError when the items table is empty (the coverage is computed
  before the label column is read) and KeyError otherwise.
\<close>

theorem missing_interested_column:
  assumes "sort_column \<noteq> ''interested''"
  shows "get_metrics name recommendations (Keys_only keys) articles_df sort_column k
           = Inl (if articles_df = [] then ZeroDivisionError else KeyError)"
  using assms by (simp add: get_metrics_def interested_filled_def nunique_def Let_def)

theorem missing_interested_column_witness:
  "''rank'' \<noteq> ''interested''
   \<and> get_metrics ''m'' example_recommendations (Keys_only [(1, ''A01'')]) example_articles ''rank'' 5
       = Inl KeyError"
  using missing_interested_column
    [of "''rank''" "''m''" example_recommendations "[(1, ''A01'')]" example_articles 5]
  by (simp add: example_articles_def)

text \<open>
  Both restrictions are needed: on an empty items table the error is not a key
  error, and when the sort column is called \<open>interested\<close> that column is read as the
  label and a summary is returned (here with a mean precision of 3/2).
\<close>

theorem keys_only_without_key_error:
  "get_metrics ''m'' example_recommendations example_keys [] ''rank'' 5 = Inl ZeroDivisionError
   \<and> map_sum id (\<lambda>s. cell s (''Precision@5'', ''mean''))
         (get_metrics ''m'' example_recommendations example_keys example_articles ''interested'' 5)
       = Inr (Some (Some (3 / 2)))"
  by (simp add: metrics_defs example_recommendations_def example_keys_def
      example_articles_def str_5 cell_def)

section \<open>An article that the items table does not have\<close>

lemma set_unique [simp]: "set (unique xs) = set xs"
  by (simp add: unique_def)

lemma distinct_unique [simp]: "distinct (unique xs)"
  by (simp add: unique_def)

lemma cosine_similarity_length:
  "cosine_similarity X = Inr P \<Longrightarrow> length P = length X"
  by (auto simp: cosine_similarity_def Let_def split: if_splits)

lemma cosine_similarity_error:
  "cosine_similarity X = Inl e \<Longrightarrow> e = ValueError"
  by (auto simp: cosine_similarity_def Let_def split: if_splits)

text \<open>With a unique index, the rows selected by \<open>isin\<close> are fewer than the labels as
  soon as one label is missing from the index.\<close>

lemma isin_too_short:
  assumes "distinct (map fst articles_df)" and "distinct labels"
    and "a \<in> set labels" and "a \<notin> fst ` set articles_df"
  shows "length (filter (\<lambda>(a, v). a \<in> set labels) articles_df) < length labels"
proof -
  let ?F = "filter (\<lambda>(a, v). a \<in> set labels) articles_df"
  have d: "distinct (map fst ?F)"
    using assms(1) by (rule distinct_map_filter)
  have sub: "set (map fst ?F) \<subseteq> set labels - {a}"
    using assms(4) by (auto simp: image_iff)
  have "length ?F = card (set (map fst ?F))"
    using distinct_card [OF d] by simp
  also have "\<dots> \<le> card (set labels - {a})"
    by (rule card_mono [OF _ sub]) simp
  also have "\<dots> < card (set labels)"
    using assms(3) by (intro card_Diff1_less) simp_all
  also have "\<dots> = length labels"
    using assms(2) by (rule distinct_card)
  finally show ?thesis .
qed

lemma diversity_missing_article:
  assumes "distinct (map fst articles_df)"
    and "r \<in> set recs" and "article_id r \<notin> fst ` set articles_df"
  shows "diversity_x_cid recs articles_df = Inl ValueError"
proof -
  let ?labels = "unique (map article_id recs)"
  let ?X = "map snd (filter (\<lambda>(a, v). a \<in> set ?labels) articles_df)"
  have short: "length ?X < length ?labels"
    using isin_too_short [OF assms(1) distinct_unique, of "article_id r" "map article_id recs"]
      assms(2,3)
    by simp
  show ?thesis
  proof (cases "cosine_similarity ?X")
    case (Inl e)
    then show ?thesis
      using cosine_similarity_error [OF Inl] by (simp add: diversity_x_cid_def Let_def)
  next
    case (Inr P)
    then have "length P \<noteq> length ?labels"
      using cosine_similarity_length [OF Inr] short by simp
    then show ?thesis
      using Inr by (simp add: diversity_x_cid_def Let_def sims_frame_def)
  qed
qed

text \<open>
  C6 (as amended). If some article of the recommendations is missing from the index
  of the items table, and that index has no duplicates, \<open>get_metrics\<close> returns no
  summary row: it raises. The error is the ValueError of the similarity frame, whose
  matrix has fewer rows than labels, unless an earlier step has already raised.
\<close>

theorem missing_article_raises:
  assumes "distinct (map fst articles_df)"
    and "r \<in> set recommendations" and "article_id r \<notin> fst ` set articles_df"
  shows "get_metrics name recommendations true_labels articles_df sort_column k
           = Inl ZeroDivisionError
       \<or> get_metrics name recommendations true_labels articles_df sort_column k
           = Inl KeyError
       \<or> get_metrics name recommendations true_labels articles_df sort_column k
           = Inl ValueError"
proof (cases "interested_filled recommendations true_labels sort_column")
  case (Inl e)
  then show ?thesis
    using interested_filled_error [OF Inl] by (simp add: get_metrics_def Let_def)
next
  case (Inr recs)
  obtain r' where r': "r' \<in> set (sort_values recs)" "article_id r' = article_id r"
  proof -
    have "article_id r \<in> article_id ` set recs"
      using interested_filled_articles [OF Inr] assms(2) by blast
    then show ?thesis
      using that by (auto simp: sort_values_def)
  qed
  have "diversity_x_cid (sort_values recs) articles_df = Inl ValueError"
    using diversity_missing_article [OF assms(1) r'(1)] r'(2) assms(3) by simp
  then show ?thesis
    using Inr by (simp add: get_metrics_def Let_def)
qed

theorem missing_article_raises_witness:
  "distinct (map fst [(''A01'', [1, 0 :: real])])
   \<and> \<lparr>cid = 1, article_id = ''A02'', sort_val = 2\<rparr> \<in> set example_recommendations
   \<and> ''A02'' \<notin> fst ` set [(''A01'', [1, 0 :: real])]
   \<and> get_metrics ''m'' example_recommendations example_true_labels [(''A01'', [1, 0])] ''rank'' 5
       \<in> {Inl ZeroDivisionError, Inl KeyError, Inl ValueError}"
  using missing_article_raises
    [of "[(''A01'', [1, 0])]" "\<lparr>cid = 1, article_id = ''A02'', sort_val = 2\<rparr>"
        example_recommendations "''m''" example_true_labels "''rank''" 5]
  by (auto simp add: example_recommendations_def)

text \<open>The unamended statement fails on this input: the call raises instead of returning a
  summary without the missing article.\<close>

theorem missing_article_value_error:
  "get_metrics ''m'' example_recommendations example_true_labels [(''A01'', [1, 0])] ''rank'' 5
     = Inl ValueError"
  by (simp add: metrics_defs example_recommendations_def example_true_labels_def)

text \<open>Without the uniqueness of the index the shapes can agree by accident: the
  duplicated row of \<open>A01\<close> then stands in for the missing \<open>A02\<close>.\<close>

lemma duplicate_index_hides_missing_article:
  "map_sum id (\<lambda>s. cell s (''Diversity'', ''mean''))
     (get_metrics ''m'' example_recommendations example_true_labels
        [(''A01'', [1, 0]), (''A01'', [1, 0])] ''rank'' 5)
   = Inr (Some (Some 0))"
  by (simp add: metrics_defs example_recommendations_def example_true_labels_def str_5 cell_def)

section \<open>Inputs on which get\_metrics returns\<close>

lemma length_concat_nonempty:
  "(\<And>x. x \<in> set xs \<Longrightarrow> f x \<noteq> []) \<Longrightarrow> length xs \<le> length (concat (map f xs))"
proof (induction xs)
  case Nil
  show ?case by simp
next
  case (Cons x xs)
  have "f x \<noteq> []" by (simp add: Cons.prems)
  then have "1 \<le> length (f x)" by (cases "f x") auto
  moreover have "length xs \<le> length (concat (map f xs))"
    by (rule Cons.IH) (simp add: Cons.prems)
  ultimately show ?case by simp
qed

lemma spec_labels_not_Nil [simp]: "spec_labels true_rows r \<noteq> []"
  by (simp add: spec_labels_def Let_def)

lemma joined_customer_size:
  assumes "interested_filled recommendations (With_interested true_rows) sort_column = Inr recs"
  shows "length (filter (\<lambda>r. cid r = c) recommendations) \<le> length (filter (\<lambda>r. cid r = c) recs)"
proof -
  have "length (filter (\<lambda>r. cid r = c) recs)
      = length (map (\<lambda>x. (sort_val x, interested x)) (filter (\<lambda>r. cid r = c) recs))"
    by simp
  also have "\<dots> = length (spec_customer_rows true_rows recommendations c)"
    by (simp only: joined_customer_rows [OF assms])
  finally show ?thesis
    unfolding spec_customer_rows_def
    using length_concat_nonempty
      [of "filter (\<lambda>r. cid r = c) recommendations"
          "\<lambda>r. map (Pair (sort_val r)) (spec_labels true_rows r)"]
    by simp
qed

lemma length_filter_sort_values:
  "length (filter P (sort_values recs)) = length (filter P recs)"
  by (simp add: sort_values_def filter_sort)

lemma combinations2_not_Nil:
  assumes "2 \<le> length xs"
  shows "combinations2 xs \<noteq> []"
proof (cases xs)
  case Nil
  with assms show ?thesis by simp
next
  case (Cons a ys)
  with assms obtain b rest where "ys = b # rest"
    by (cases ys) auto
  with Cons show ?thesis by simp
qed

lemma isin_exact:
  assumes "distinct (map fst articles_df)" and "distinct labels"
    and "set labels \<subseteq> fst ` set articles_df"
  shows "length (filter (\<lambda>(a, v). a \<in> set labels) articles_df) = length labels"
proof -
  let ?F = "filter (\<lambda>(a, v). a \<in> set labels) articles_df"
  have d: "distinct (map fst ?F)"
    using assms(1) by (rule distinct_map_filter)
  have "set (map fst ?F) = set labels"
  proof (intro equalityI subsetI)
    fix x assume "x \<in> set (map fst ?F)"
    then show "x \<in> set labels" by auto
  next
    fix x assume x: "x \<in> set labels"
    with assms(3) obtain row where "row \<in> set articles_df" "fst row = x"
      by auto
    with x have "row \<in> set ?F"
      by (cases row) simp
    then show "x \<in> set (map fst ?F)"
      using \<open>fst row = x\<close> by (metis image_eqI set_map)
  qed
  then have "card (set (map fst ?F)) = card (set labels)"
    by simp
  then show ?thesis
    using distinct_card [OF d] distinct_card [OF assms(2)] by simp
qed

lemma groupby_groups:
  "(c, g) \<in> set (groupby key rows) \<Longrightarrow> c \<in> key ` set rows \<and> g = filter (\<lambda>r. key r = c) rows"
  by (auto simp: groupby_def)

lemma groupby_not_Nil:
  assumes "rows \<noteq> []"
  shows "groupby key rows \<noteq> []"
proof -
  have "set (sort (remdups (map key rows))) \<noteq> {}"
    using assms by simp
  then have "sort (remdups (map key rows)) \<noteq> []"
    by (metis set_empty)
  then show ?thesis
    by (simp add: groupby_def)
qed

lemma zip_star_Some:
  assumes "rows \<noteq> []" and "\<forall>row \<in> set rows. snd row \<noteq> []"
  shows "\<exists>pairs. zip_star (explode rows) = Inr pairs"
proof -
  have none: "\<not> (\<exists>row \<in> set (explode rows). snd row = None)"
    using assms(2) by (auto simp: explode_def split: if_splits)
  obtain c ps where hd: "(c, ps) \<in> set rows"
    using assms(1) by (cases rows) auto
  with assms(2) have "ps \<noteq> []" by auto
  then obtain p where "p \<in> set ps"
    by (cases ps) auto
  then have "(c, Some p) \<in> set (explode rows)"
    using hd \<open>ps \<noteq> []\<close> by (force simp: explode_def)
  then have "explode rows \<noteq> []" by auto
  with none show ?thesis
    by (simp add: zip_star_def)
qed

lemma diversity_returns:
  assumes "recs \<noteq> []"
    and "distinct (map fst articles_df)"
    and "\<And>r. r \<in> set recs \<Longrightarrow> article_id r \<in> fst ` set articles_df"
    and "\<And>row. row \<in> set articles_df \<Longrightarrow> snd row \<noteq> []"
    and "\<And>r. r \<in> set recs \<Longrightarrow> 2 \<le> length (filter (\<lambda>r'. cid r' = cid r) recs)"
  shows "\<exists>diversity. diversity_x_cid recs articles_df = Inr diversity"
proof -
  let ?labels = "unique (map article_id recs)"
  let ?F = "filter (\<lambda>(a, v). a \<in> set ?labels) articles_df"
  let ?X = "map snd ?F"
  have sub: "set ?labels \<subseteq> fst ` set articles_df"
    using assms(3) by auto
  have len: "length ?X = length ?labels"
    using isin_exact [OF assms(2) distinct_unique sub] by simp
  have "?labels \<noteq> []"
    using assms(1) by (metis set_unique set_map image_is_empty set_empty)
  then have X: "?X \<noteq> []"
    using len by (metis length_0_conv)
  have "set ?X \<subseteq> snd ` set articles_df"
    by auto
  with hd_in_set [OF X] have "hd ?X \<in> snd ` set articles_df"
    by blast
  then obtain row where "row \<in> set articles_df" and "hd ?X = snd row"
    by (rule imageE)
  then have hd: "hd ?X \<noteq> []"
    using assms(4) [of row] by simp
  obtain P where P: "cosine_similarity ?X = Inr P"
    using X hd by (simp add: cosine_similarity_def Let_def)
  have "length P = length ?labels"
    using cosine_similarity_length [OF P] len by simp
  then obtain sims_df where sims: "sims_frame P ?labels = Inr sims_df"
    by (simp add: sims_frame_def)
  let ?combs = "map (\<lambda>(c, x). (c, combinations2 x))
                  (map (\<lambda>(c, g). (c, map article_id g)) (groupby cid recs))"
  have ne: "?combs \<noteq> []"
    using groupby_not_Nil [OF assms(1), of cid] by simp
  have pairs: "\<forall>row \<in> set ?combs. snd row \<noteq> []"
  proof
    fix row assume "row \<in> set ?combs"
    then obtain c g where g: "(c, g) \<in> set (groupby cid recs)"
      and ps: "snd row = combinations2 (map article_id g)"
      by auto
    from groupby_groups [OF g] obtain r where "r \<in> set recs" "cid r = c"
      and "g = filter (\<lambda>r'. cid r' = c) recs"
      by auto
    then have "2 \<le> length (map article_id g)"
      using assms(5) by auto
    then show "snd row \<noteq> []"
      unfolding ps by (rule combinations2_not_Nil)
  qed
  obtain ps where "zip_star (explode ?combs) = Inr ps"
    using zip_star_Some [OF ne pairs] by blast
  then show ?thesis
    using P sims by (simp add: diversity_x_cid_def Let_def)
qed

lemma get_metrics_returns:
  assumes "valid_input recommendations true_labels articles_df sort_column"
  shows "\<exists>s. get_metrics name recommendations true_labels articles_df sort_column k = Inr s"
proof -
  from assms obtain true_rows where tl: "true_labels = With_interested true_rows"
    by (cases true_labels) (auto simp: valid_input_def)
  from assms have sc: "sort_column \<noteq> ''interested''"
    and ne: "recommendations \<noteq> []"
    and idx: "distinct (map fst articles_df)"
    and cov: "\<And>r. r \<in> set recommendations \<Longrightarrow> article_id r \<in> fst ` set articles_df"
    and feat: "\<And>row. row \<in> set articles_df \<Longrightarrow> snd row \<noteq> []"
    and two: "\<And>r. r \<in> set recommendations
                \<Longrightarrow> 2 \<le> length (filter (\<lambda>r'. cid r' = cid r) recommendations)"
    by (auto simp: valid_input_def)
  obtain recs where recs: "interested_filled recommendations (With_interested true_rows) sort_column = Inr recs"
    using sc by (simp add: interested_filled_def)
  have catalog: "nunique (map fst articles_df) \<noteq> 0"
  proof -
    obtain r where "r \<in> set recommendations"
      using ne by (cases recommendations) auto
    from cov [OF this] have "articles_df \<noteq> []" by auto
    then show ?thesis by (simp add: nunique_def)
  qed
  let ?sorted = "sort_values recs"
  have arts: "article_id ` set ?sorted = article_id ` set recommendations"
    using interested_filled_articles [OF recs] by (simp add: sort_values_def)
  have custs: "cid ` set ?sorted = cid ` set recommendations"
    using interested_filled_customers [OF recs] by (simp add: sort_values_def)
  have s_ne: "?sorted \<noteq> []"
    using arts ne by (metis image_is_empty set_empty)
  have s_cov: "article_id r \<in> fst ` set articles_df" if "r \<in> set ?sorted" for r
  proof -
    from that arts obtain r' where "r' \<in> set recommendations" "article_id r' = article_id r"
      by (metis (no_types, lifting) image_iff)
    with cov [of r'] show ?thesis by simp
  qed
  have s_two: "2 \<le> length (filter (\<lambda>r'. cid r' = cid r) ?sorted)" if "r \<in> set ?sorted" for r
  proof -
    from that custs obtain r' where r': "r' \<in> set recommendations" "cid r' = cid r"
      by (metis (no_types, lifting) image_iff)
    have "2 \<le> length (filter (\<lambda>x. cid x = cid r) recommendations)"
      using two [OF r'(1)] r'(2) by simp
    also have "\<dots> \<le> length (filter (\<lambda>x. cid x = cid r) recs)"
      by (rule joined_customer_size [OF recs])
    finally show ?thesis
      by (simp only: length_filter_sort_values)
  qed
  obtain diversity where "diversity_x_cid ?sorted articles_df = Inr diversity"
    using diversity_returns [OF s_ne idx s_cov feat s_two] by blast
  then show ?thesis
    using catalog recs by (simp add: get_metrics_def tl Let_def)
qed

lemma example_valid:
  "valid_input example_recommendations example_true_labels example_articles ''rank''"
  by (simp add: valid_input_def example_recommendations_def example_true_labels_def
      example_articles_def)

lemma four_valid:
  "valid_input four_recommendations (With_interested four_true_rows) example_articles ''score''"
  by (simp add: valid_input_def four_recommendations_def example_articles_def)

section \<open>Catalog coverage\<close>

lemma coverage_field:
  assumes "get_metrics name recommendations true_labels articles_df sort_column k = Inr s"
  shows "cell s (''General'', ''Catalog coverage (%)'')
           = Some (Some (py_round (fl (100 * fl (spec_coverage recommendations articles_df))) 4))"
  using assms
  by (auto simp add: get_metrics_def Let_def cell_def nunique_def length_remdups_card_conv
      spec_coverage_def split: sum.splits if_splits)

text \<open>The quotient and the product are rounded once each, so the double that
  \<^verbatim>\<open>round\<close> receives is the exact percentage up to a relative error below \<open>10 ^ -15\<close>.\<close>

lemma coverage_product_error:
  assumes "0 \<le> r"
  shows "\<bar>fl (100 * fl r) - 100 * r\<bar> \<le> r / 10 ^ 13"
proof -
  have q: "\<bar>fl r - r\<bar> \<le> r / 2 ^ 53"
    using fl_error [of r] assms by simp
  have p: "\<bar>fl (100 * fl r) - 100 * fl r\<bar> \<le> \<bar>100 * fl r\<bar> / 2 ^ 53"
    by (rule fl_error)
  from q p assms show ?thesis
    by (simp add: abs_if split: if_splits)
qed

text \<open>
  C5. On a valid input \<open>get_metrics\<close> returns a summary, and in every summary it returns
  the field \<open>Catalog coverage (%)\<close> is the number of distinct article ids of the
  recommendations, divided by the number of distinct labels of the index of the items
  table, times 100, rounded to 4 decimals: the field is the double nearest to a decimal
  \<open>m / 10 ^ 4\<close>, where \<open>m\<close> is the integer nearest to \<open>10 ^ 4\<close> times the product by 100 of
  the quotient (the even one of two that are equally near), the quotient and the
  product being those of doubles; and this decimal is within half a unit of the
  fourth decimal of the exact percentage, up to the error of the two operations.
\<close>

theorem catalog_coverage:
  "(valid_input recommendations true_labels articles_df sort_column
      \<longrightarrow> (\<exists>s. get_metrics name recommendations true_labels articles_df sort_column k = Inr s))
   \<and> (get_metrics name recommendations true_labels articles_df sort_column k = Inr s
      \<longrightarrow> (\<exists>m :: int.
             cell s (''General'', ''Catalog coverage (%)'') = Some (Some (fl (of_int m / 10 ^ 4)))
           \<and> \<bar>fl (100 * fl (spec_coverage recommendations articles_df)) * 10 ^ 4 - of_int m\<bar>
               \<le> 1 / 2
           \<and> (\<bar>fl (100 * fl (spec_coverage recommendations articles_df)) * 10 ^ 4 - of_int m\<bar>
                 = 1 / 2 \<longrightarrow> even m)
           \<and> \<bar>of_int m / 10 ^ 4 - 100 * spec_coverage recommendations articles_df\<bar>
               \<le> 1 / (2 * 10 ^ 4) + spec_coverage recommendations articles_df / 10 ^ 13))"
proof (intro conjI impI)
  assume "valid_input recommendations true_labels articles_df sort_column"
  then show "\<exists>s. get_metrics name recommendations true_labels articles_df sort_column k = Inr s"
    by (rule get_metrics_returns)
next
  assume run: "get_metrics name recommendations true_labels articles_df sort_column k = Inr s"
  define r where "r = spec_coverage recommendations articles_df"
  define x where "x = fl (100 * fl r)"
  define m where "m = round_half_even (x * 10 ^ 4)"
  have r: "0 \<le> r"
    by (simp add: r_def spec_coverage_def)
  have field: "cell s (''General'', ''Catalog coverage (%)'') = Some (Some (fl (of_int m / 10 ^ 4)))"
    using coverage_field [OF run] by (simp add: py_round_def m_def x_def r_def)
  have near: "\<bar>x * 10 ^ 4 - of_int m\<bar> \<le> 1 / 2"
    unfolding m_def by (rule round_half_even_error)
  have tie: "\<bar>x * 10 ^ 4 - of_int m\<bar> = 1 / 2 \<longrightarrow> even m"
    unfolding m_def using round_half_even_tie by blast
  have "\<bar>x - 100 * r\<bar> \<le> r / 10 ^ 13"
    unfolding x_def by (rule coverage_product_error [OF r])
  with near have exact: "\<bar>of_int m / 10 ^ 4 - 100 * r\<bar> \<le> 1 / (2 * 10 ^ 4) + r / 10 ^ 13"
    by (simp add: abs_if split: if_splits)
  from field near tie exact
  show "\<exists>m :: int.
             cell s (''General'', ''Catalog coverage (%)'') = Some (Some (fl (of_int m / 10 ^ 4)))
           \<and> \<bar>fl (100 * fl (spec_coverage recommendations articles_df)) * 10 ^ 4 - of_int m\<bar>
               \<le> 1 / 2
           \<and> (\<bar>fl (100 * fl (spec_coverage recommendations articles_df)) * 10 ^ 4 - of_int m\<bar>
                 = 1 / 2 \<longrightarrow> even m)
           \<and> \<bar>of_int m / 10 ^ 4 - 100 * spec_coverage recommendations articles_df\<bar>
               \<le> 1 / (2 * 10 ^ 4) + spec_coverage recommendations articles_df / 10 ^ 13"
    unfolding x_def r_def by blast
qed

text \<open>
  With 23 of 640 articles recommended the exact percentage is 3.59375, half-way
  between two decimals. The double nearest to 23/640 lies below it, and so does its
  product by 100: the field is 3.5937, where the exact percentage would round to the
  even neighbour 3.5938.
\<close>

lemma inj_on_unary: "inj_on (\<lambda>i. c # replicate i c) A"
proof (rule inj_onI)
  fix i j assume "c # replicate i c = c # replicate j c"
  then have "length (replicate i c) = length (replicate j c)"
    by simp
  then show "i = j" by simp
qed

lemma wide_articles_index:
  "map fst wide_articles = map (\<lambda>i. replicate (Suc i) CHR ''a'') [0..<640]"
  by (simp add: wide_articles_def comp_def del: upt_rec_numeral)

lemma wide_recommendations_articles:
  "map article_id wide_recommendations = map (\<lambda>i. replicate (Suc i) CHR ''a'') [0..<23]"
  by (simp add: wide_recommendations_def comp_def del: upt_rec_numeral)

lemma wide_coverage: "spec_coverage wide_recommendations wide_articles = 23 / 640"
proof -
  have "card (set (map article_id wide_recommendations)) = 23"
    unfolding wide_recommendations_articles
    by (simp add: card_image inj_on_unary del: upt_rec_numeral)
  moreover have "card (set (map fst wide_articles)) = 640"
    unfolding wide_articles_index
    by (simp add: card_image inj_on_unary del: upt_rec_numeral)
  ultimately show ?thesis
    by (simp add: spec_coverage_def)
qed

lemma wide_valid:
  "valid_input wide_recommendations (With_interested []) wide_articles ''score''"
proof -
  have ne: "wide_recommendations \<noteq> []"
    by (simp add: wide_recommendations_def del: upt_rec_numeral)
  have idx: "distinct (map fst wide_articles)"
    unfolding wide_articles_index
    by (simp add: distinct_map inj_on_unary del: upt_rec_numeral)
  have cov: "article_id r \<in> fst ` set wide_articles" if "r \<in> set wide_recommendations" for r
  proof -
    from that have "article_id r \<in> set (map article_id wide_recommendations)"
      by simp
    then obtain i where "i < 23" and "article_id r = replicate (Suc i) CHR ''a''"
      unfolding wide_recommendations_articles by (auto simp del: upt_rec_numeral)
    then have "article_id r \<in> set (map fst wide_articles)"
      unfolding wide_articles_index by (auto simp del: upt_rec_numeral)
    then show ?thesis by simp
  qed
  have hd: "hd wide_articles = (''a'', [1])"
    by (simp add: wide_articles_def hd_map upt_conv_Cons del: upt_rec_numeral)
  have rows: "snd row \<noteq> [] \<and> length (snd row) = length (snd (hd wide_articles))"
    if "row \<in> set wide_articles" for row
    using that unfolding hd by (auto simp: wide_articles_def simp del: upt_rec_numeral)
  have one: "cid r = 1" if "r \<in> set wide_recommendations" for r
    using that by (auto simp: wide_recommendations_def simp del: upt_rec_numeral)
  then have "filter (\<lambda>r'. cid r' = 1) wide_recommendations = wide_recommendations"
    by (simp add: filter_id_conv)
  then have two: "2 \<le> length (filter (\<lambda>r'. cid r' = cid r) wide_recommendations)"
    if "r \<in> set wide_recommendations" for r
    using one [OF that] by (simp add: wide_recommendations_def del: upt_rec_numeral)
  show ?thesis
    unfolding valid_input_def using ne idx cov rows two by simp
qed

lemma wide_quotient: "fl (23 / 640) = 2589569785738035 / 72057594037927936"
  using fl_eval [of "-5" "23 / 640"] by (simp add: round_half_even_def power_int_minus)

lemma wide_product: "fl (100 * fl (23 / 640)) = 8092405580431359 / 2251799813685248"
  unfolding wide_quotient
  using fl_eval [of 1 "100 * (2589569785738035 / 72057594037927936)"]
  by (simp add: round_half_even_def power_int_minus)

lemma wide_exact: "round_half_even (100 * (23 / 640) * 10 ^ 4) = 35938"
  by (simp add: round_half_even_def)

lemma wide_rounded: "py_round (fl (100 * fl (23 / 640))) 4 = fl (35937 / 10 ^ 4)"
  by (simp add: py_round_def wide_product round_half_even_def)

theorem catalog_coverage_witness:
  "valid_input wide_recommendations (With_interested []) wide_articles ''score''
   \<and> spec_coverage wide_recommendations wide_articles = 23 / 640
   \<and> (\<exists>s. get_metrics ''m'' wide_recommendations (With_interested []) wide_articles ''score'' 5
            = Inr s
          \<and> cell s (''General'', ''Catalog coverage (%)'') = Some (Some (fl (35937 / 10 ^ 4))))"
proof -
  note t = catalog_coverage [where recommendations = wide_recommendations
      and true_labels = "With_interested []" and articles_df = wide_articles
      and sort_column = "''score''" and name = "''m''" and k = 5]
  from t wide_valid obtain s where
    run: "get_metrics ''m'' wide_recommendations (With_interested []) wide_articles ''score'' 5
            = Inr s"
    by blast
  from t [of s] run obtain m :: int where
    field: "cell s (''General'', ''Catalog coverage (%)'') = Some (Some (fl (of_int m / 10 ^ 4)))"
    and near: "\<bar>fl (100 * fl (spec_coverage wide_recommendations wide_articles)) * 10 ^ 4
                 - of_int m\<bar> \<le> 1 / 2"
    by blast
  from near have "\<bar>8092405580431359 / 2251799813685248 * 10 ^ 4 - real_of_int m\<bar> \<le> 1 / 2"
    by (simp only: wide_coverage wide_product)
  then have "m = 35937"
    by (simp add: abs_if split: if_splits)
  with field run wide_valid wide_coverage show ?thesis
    by auto
qed

section \<open>The worked example\<close>

lemma example_joined:
  "interested_filled example_recommendations example_true_labels ''rank''
     = Inr [\<lparr>cid = 1, article_id = ''A01'', sort_val = 1, interested = 1\<rparr>,
            \<lparr>cid = 1, article_id = ''A02'', sort_val = 2, interested = 0\<rparr>]"
  by (simp add: interested_filled_def merge_left_def matched_def with_interested_def fillna_def
      example_recommendations_def example_true_labels_def)

lemma example_swapped_joined:
  "interested_filled example_recommendations_swapped example_true_labels ''rank''
     = Inr [\<lparr>cid = 1, article_id = ''A01'', sort_val = 2, interested = 1\<rparr>,
            \<lparr>cid = 1, article_id = ''A02'', sort_val = 1, interested = 0\<rparr>]"
  by (simp add: interested_filled_def merge_left_def matched_def with_interested_def fillna_def
      example_recommendations_swapped_def example_true_labels_def)

lemma example_run_swapped:
  "get_metrics ''m'' example_recommendations_swapped example_true_labels example_articles ''rank'' 5
     = Inr example_summary_swapped"
  by (simp add: metrics_defs example_recommendations_swapped_def example_true_labels_def
      example_articles_def example_summary_swapped_def str_5)

lemmas series_defs =
  prec_xcid_def rec_xcid_def groupby_def mean_list_def series_mean_def series_std_def
  sort_values_def map_xcid_def intra_map_at_k_def transform_def expanding_sum_def
  expanding_count_def Let_def

text \<open>
  C7 (as amended). On the worked example, with the label frame carrying
  \<open>interested = 1\<close> for the pair of customer 1 and \<open>A01\<close>, every summary that
  \<open>get_metrics\<close> returns has a mean precision of 1/2 and a mean MAP of 1/4: the sort is
  descending in \<open>rank\<close>, so \<open>A02\<close> (rank 2) comes before the hit \<open>A01\<close> (rank 1), whose
  running precision is 1/2. The value 1/2 for MAP is what the same call returns when
  \<open>A01\<close> carries the larger sort value.
\<close>

theorem worked_example:
  "(get_metrics name example_recommendations example_true_labels articles_df ''rank'' k = Inr s
      \<longrightarrow> cell s (''Precision@'' @ str k, ''mean'') = Some (Some (1 / 2))
        \<and> cell s (''MAP@'' @ str k, ''mean'') = Some (Some (1 / 4)))
   \<and> (get_metrics name example_recommendations_swapped example_true_labels articles_df ''rank'' k
        = Inr s'
      \<longrightarrow> cell s' (''Precision@'' @ str k, ''mean'') = Some (Some (1 / 2))
        \<and> cell s' (''MAP@'' @ str k, ''mean'') = Some (Some (1 / 2)))"
  by (auto simp add: get_metrics_def example_joined example_swapped_joined series_defs cell_def
      split: sum.splits if_splits)

theorem worked_example_witness:
  "get_metrics ''m'' example_recommendations example_true_labels example_articles ''rank'' 5
     = Inr example_summary
   \<and> get_metrics ''m'' example_recommendations_swapped example_true_labels example_articles ''rank'' 5
     = Inr example_summary_swapped
   \<and> cell example_summary (''Precision@5'', ''mean'') = Some (Some (1 / 2))
   \<and> cell example_summary (''MAP@5'', ''mean'') = Some (Some (1 / 4))
   \<and> cell example_summary_swapped (''Precision@5'', ''mean'') = Some (Some (1 / 2))
   \<and> cell example_summary_swapped (''MAP@5'', ''mean'') = Some (Some (1 / 2))"
  using worked_example [of "''m''" example_articles 5 example_summary example_summary_swapped]
    example_run example_run_swapped
  by (simp add: str_5)

text \<open>The example as the specification writes it: with the label frame of keys only the
  call raises KeyError, and with the label column present the mean MAP is 1/4, not 1/2.\<close>

theorem worked_example_as_written:
  "get_metrics ''m'' example_recommendations example_keys example_articles ''rank'' 5
     = Inl KeyError
   \<and> map_sum id (\<lambda>s. cell s (''MAP@5'', ''mean''))
        (get_metrics ''m'' example_recommendations example_true_labels example_articles ''rank'' 5)
     = Inr (Some (Some (1 / 4)))
   \<and> map_sum id (\<lambda>s. cell s (''MAP@5'', ''mean''))
        (get_metrics ''m'' example_recommendations example_true_labels example_articles ''rank'' 5)
     \<noteq> Inr (Some (Some (1 / 2)))"
proof -
  have raises: "get_metrics ''m'' example_recommendations example_keys example_articles ''rank'' 5
      = Inl KeyError"
    by (simp add: get_metrics_def interested_filled_def example_keys_def example_articles_def
        nunique_def)
  have quarter: "map_sum id (\<lambda>s. cell s (''MAP@5'', ''mean''))
        (get_metrics ''m'' example_recommendations example_true_labels example_articles ''rank'' 5)
      = Inr (Some (Some (1 / 4)))"
    by (simp add: example_run example_summary_def cell_def)
  show ?thesis
    unfolding raises quarter by simp
qed

section \<open>Precision and recall\<close>

subsection \<open>The mean and the standard deviation across customers\<close>

text \<open>A call that returns had at least one recommendation: on an empty
  recommendations table the similarity matrix has no rows and the call raises.\<close>

lemma get_metrics_nonempty:
  assumes "get_metrics name recommendations true_labels articles_df sort_column k = Inr s"
  shows "recommendations \<noteq> []"
proof
  assume empty: "recommendations = []"
  have "interested_filled [] true_labels sort_column = Inl KeyError
      \<or> interested_filled [] true_labels sort_column = Inr []"
    by (simp add: interested_filled_def merge_left_def split: true_labels_df.splits)
  moreover have "diversity_x_cid (sort_values []) articles_df = Inl ValueError"
    by (simp add: diversity_x_cid_def sort_values_def unique_def cosine_similarity_def)
  ultimately show False
    using assms unfolding empty by (auto simp: get_metrics_def Let_def split: if_splits)
qed

lemma spec_customers_not_Nil:
  assumes "recommendations \<noteq> []"
  shows "spec_customers recommendations \<noteq> []"
proof -
  have "set (spec_customers recommendations) = cid ` set recommendations"
    by (simp add: spec_customers_def)
  with assms show ?thesis
    by (metis image_is_empty set_empty)
qed

lemma spec_customers_sort:
  "spec_customers recommendations = sort (remdups (map cid recommendations))"
  by (simp add: spec_customers_def sorted_list_of_set_sort_remdups flip: set_map)

lemma four_customers: "spec_customers four_recommendations = [1, 2, 3, 4]"
  by (simp add: spec_customers_sort four_recommendations_def)

lemma series_mean_spec: "xs \<noteq> [] \<Longrightarrow> series_mean xs = Some (spec_mean xs)"
  by (simp add: series_mean_def mean_list_def spec_mean_def)

lemma series_std_spec:
  "series_std xs = (if length xs < 2 then None else Some (spec_std xs))"
  by (simp add: series_std_def mean_list_def spec_mean_def spec_std_def of_nat_diff)

lemma across_customers:
  assumes "recommendations \<noteq> []"
  shows "series_mean (map f (spec_customers recommendations))
           = Some (spec_mean (map f (spec_customers recommendations)))"
    and "series_std (map f (spec_customers recommendations))
           = (if length (spec_customers recommendations) < 2 then None
              else Some (spec_std (map f (spec_customers recommendations))))"
proof -
  have "map f (spec_customers recommendations) \<noteq> []"
    using spec_customers_not_Nil [OF assms] by simp
  then show "series_mean (map f (spec_customers recommendations))
           = Some (spec_mean (map f (spec_customers recommendations)))"
    by (rule series_mean_spec)
  show "series_std (map f (spec_customers recommendations))
           = (if length (spec_customers recommendations) < 2 then None
              else Some (spec_std (map f (spec_customers recommendations))))"
    unfolding series_std_spec by simp
qed

subsection \<open>Precision\<close>







subsection \<open>Recall\<close>

lemma rec_xcid_customers:
  assumes "interested_filled recommendations (With_interested true_rows) sort_column = Inr recs"
  shows "rec_xcid recs
           = map (\<lambda>c. (c, sum_list (map snd (spec_customer_rows true_rows recommendations c)) / 10))
               (spec_customers recommendations)"
proof -
  have "sum_list (map interested (filter (\<lambda>x. cid x = c) recs)) / 10
          = sum_list (map snd (spec_customer_rows true_rows recommendations c)) / 10" for c
    unfolding joined_customer_labels [OF assms] ..
  then show ?thesis
    by (simp add: rec_xcid_def groupby_eq comp_def spec_customers_def
        interested_filled_customers [OF assms])
qed

lemma recall_fields:
  assumes "get_metrics name recommendations (With_interested true_rows) articles_df sort_column k = Inr s"
  shows "cell s (''Recall@'' @ str k, ''mean'')
           = Some (Some (spec_mean (map (spec_recall true_rows recommendations)
                                        (spec_customers recommendations))))
       \<and> cell s (''Recall@'' @ str k, ''std'')
           = Some (if length (spec_customers recommendations) < 2 then None
                   else Some (spec_std (map (spec_recall true_rows recommendations)
                                            (spec_customers recommendations))))"
proof -
  from get_metrics_cells [OF assms] obtain recs where
    recs: "interested_filled recommendations (With_interested true_rows) sort_column = Inr recs"
    and m: "cell s (''Recall@'' @ str k, ''mean'') = Some (series_mean (map snd (rec_xcid recs)))"
    and sd: "cell s (''Recall@'' @ str k, ''std'') = Some (series_std (map snd (rec_xcid recs)))"
    by blast
  show ?thesis
    unfolding m sd rec_xcid_spec [OF recs]
    by (simp only: across_customers [OF get_metrics_nonempty [OF assms]] simp_thms)
qed

text \<open>
  C3. On a valid input \<open>get_metrics\<close> returns a summary. The per-customer recall that
  the code computes on the left join is, for every customer of the recommendations,
  the sum of the labels of the customer's joined rows divided by the constant 10,
  whatever the number of positives of the customer. In every summary that is
  returned, the fields \<open>Recall@k\<close> are the mean and the standard deviation of these
  values across customers; the standard deviation of a single customer is NaN.
\<close>

theorem recall_at_k:
  "(valid_input recommendations (With_interested true_rows) articles_df sort_column
      \<longrightarrow> (\<exists>s. get_metrics name recommendations (With_interested true_rows) articles_df
                  sort_column k = Inr s))
   \<and> (interested_filled recommendations (With_interested true_rows) sort_column = Inr joined
      \<longrightarrow> rec_xcid joined
             = map (\<lambda>c. (c, sum_list (map snd (spec_customer_rows true_rows
                                                  recommendations c)) / 10))
                 (spec_customers recommendations))
   \<and> (get_metrics name recommendations (With_interested true_rows) articles_df sort_column k
        = Inr s
      \<longrightarrow> cell s (''Recall@'' @ str k, ''mean'')
             = Some (Some (spec_mean
                  (map (\<lambda>c. sum_list (map snd (spec_customer_rows true_rows
                                                  recommendations c)) / 10)
                       (spec_customers recommendations))))
        \<and> cell s (''Recall@'' @ str k, ''std'')
             = Some (if length (spec_customers recommendations) < 2 then None
                     else Some (spec_std
                       (map (\<lambda>c. sum_list (map snd (spec_customer_rows true_rows
                                                       recommendations c)) / 10)
                            (spec_customers recommendations)))))"
proof -
  have "spec_recall true_rows recommendations
          = (\<lambda>c. sum_list (map snd (spec_customer_rows true_rows recommendations c)) / 10)"
    by (simp add: fun_eq_iff spec_recall_def)
  then show ?thesis
    using get_metrics_returns [of recommendations "With_interested true_rows" articles_df
        sort_column name k]
      rec_xcid_customers [of recommendations true_rows sort_column joined]
      recall_fields [of name recommendations true_rows articles_df sort_column k s]
    by auto
qed

text \<open>In the example customer 1 has bought one article, which is recommended: the
  recall computed is 1/10.\<close>

theorem recall_at_k_witness:
  "valid_input four_recommendations (With_interested four_true_rows) example_articles ''score''
   \<and> get_metrics ''m'' four_recommendations (With_interested four_true_rows) example_articles
        ''score'' 5
     = Inr four_summary
   \<and> interested_filled four_recommendations (With_interested four_true_rows) ''score''
     = Inr four_joined
   \<and> filter (\<lambda>t. fst t = 1) four_true_rows = [(1, ''A01'', Some 1)]
   \<and> rec_xcid four_joined = [(1, 1 / 10), (2, 0), (3, 1 / 10), (4, 1 / 10)]
   \<and> cell four_summary (''Recall@5'', ''mean'') = Some (Some (3 / 40))
   \<and> cell four_summary (''Recall@5'', ''std'') = Some (Some (1 / 20))
   \<and> spec_mean (map (\<lambda>c. sum_list (map snd (spec_customer_rows four_true_rows
                               four_recommendations c)) / 10)
                    (spec_customers four_recommendations)) = 3 / 40
   \<and> spec_std (map (\<lambda>c. sum_list (map snd (spec_customer_rows four_true_rows
                              four_recommendations c)) / 10)
                   (spec_customers four_recommendations)) = 1 / 20"
proof -
  note t = recall_at_k [where recommendations = four_recommendations
      and true_rows = four_true_rows and articles_df = example_articles
      and sort_column = "''score''" and name = "''m''" and k = 5 and joined = four_joined
      and s = four_summary]
  have spec: "map (\<lambda>c. (c, sum_list (map snd (spec_customer_rows four_true_rows
                               four_recommendations c)) / 10)) [1, 2, 3, 4]
      = [(1, 1 / 10), (2, 0), (3, 1 / 10), (4, 1 / 10)]"
    by (simp add: spec_customer_rows_def spec_labels_def four_true_rows_def
        four_recommendations_def)
  have bought: "filter (\<lambda>t. fst t = 1) four_true_rows = [(1, ''A01'', Some 1)]"
    by (simp add: four_true_rows_def)
  have cells: "cell four_summary (''Recall@'' @ str 5, ''mean'') = Some (Some (3 / 40))"
    "cell four_summary (''Recall@'' @ str 5, ''std'') = Some (Some (1 / 20))"
    by (simp_all add: four_summary_def cell_def str_5)
  from t four_joined_run have per_customer:
    "rec_xcid four_joined = [(1, 1 / 10), (2, 0), (3, 1 / 10), (4, 1 / 10)]"
    by (simp only: four_customers spec simp_thms)
  from t four_run cells
  have "spec_mean (map (\<lambda>c. sum_list (map snd (spec_customer_rows four_true_rows
                               four_recommendations c)) / 10)
                    (spec_customers four_recommendations)) = 3 / 40"
    and "spec_std (map (\<lambda>c. sum_list (map snd (spec_customer_rows four_true_rows
                              four_recommendations c)) / 10)
                   (spec_customers four_recommendations)) = 1 / 20"
    by (simp_all add: four_customers)
  with four_valid four_run four_joined_run bought per_customer cells show ?thesis
    by (simp add: str_5)
qed

section \<open>MAP\<close>

subsection \<open>Running sums\<close>

lemma length_running_sum [simp]: "length (running_sum acc xs) = length xs"
  by (induction xs arbitrary: acc) auto

lemma running_sum_nth:
  "i < length xs \<Longrightarrow> running_sum acc xs ! i = acc + sum_list (take (Suc i) xs)"
proof (induction xs arbitrary: acc i)
  case Nil
  then show ?case by simp
next
  case (Cons x xs)
  show ?case
  proof (cases i)
    case 0
    then show ?thesis by simp
  next
    case (Suc j)
    with Cons.prems have "j < length xs" by simp
    from Cons.IH [OF this, of "acc + x"] Suc show ?thesis by simp
  qed
qed

lemma expanding_sum_nth:
  "i < length xs \<Longrightarrow> expanding_sum xs ! i = sum_list (take (Suc i) xs)"
  by (simp add: expanding_sum_def running_sum_nth)

lemma expanding_count_nth:
  "i < length xs \<Longrightarrow> expanding_count xs ! i = real (Suc i)"
  by (simp add: expanding_count_def running_sum_nth take_map sum_list_triv min_def)

subsection \<open>Positions within a group\<close>

lemma group_positions:
  "map (\<lambda>i. length (filter P (take i rows))) (filter (\<lambda>i. P (rows ! i)) [0..<length rows])
     = [0..<length (filter P rows)]"
proof (induction rows rule: rev_induct)
  case Nil
  show ?case by simp
next
  case (snoc x xs)
  have f: "filter (\<lambda>i. P ((xs @ [x]) ! i)) [0..<length xs] = filter (\<lambda>i. P (xs ! i)) [0..<length xs]"
    by (rule filter_cong) (auto simp: nth_append)
  have m: "map (\<lambda>i. length (filter P (take i (xs @ [x])))) (filter (\<lambda>i. P (xs ! i)) [0..<length xs])
         = map (\<lambda>i. length (filter P (take i xs))) (filter (\<lambda>i. P (xs ! i)) [0..<length xs])"
    by (rule map_cong) auto
  have "map (\<lambda>i. length (filter P (take i (xs @ [x]))))
          (filter (\<lambda>i. P ((xs @ [x]) ! i)) [0..<length (xs @ [x])])
      = map (\<lambda>i. length (filter P (take i (xs @ [x])))) (filter (\<lambda>i. P (xs ! i)) [0..<length xs])
          @ (if P x then [length (filter P xs)] else [])"
    by (simp add: f)
  also have "\<dots> = map (\<lambda>i. length (filter P (take i xs))) (filter (\<lambda>i. P (xs ! i)) [0..<length xs])
          @ (if P x then [length (filter P xs)] else [])"
    by (simp only: m)
  also have "\<dots> = [0..<length (filter P xs)] @ (if P x then [length (filter P xs)] else [])"
    by (simp only: snoc.IH)
  also have "\<dots> = [0..<length (filter P (xs @ [x]))]"
    by simp
  finally show ?case .
qed

lemma filter_split_at:
  assumes "i < length rows" and "P (rows ! i)"
  shows "filter P rows = filter P (take i rows) @ rows ! i # filter P (drop (Suc i) rows)"
proof -
  have "filter P (take i rows @ rows ! i # drop (Suc i) rows)
      = filter P (take i rows) @ rows ! i # filter P (drop (Suc i) rows)"
    using assms(2) by simp
  then show ?thesis
    by (simp only: id_take_nth_drop [OF assms(1), symmetric])
qed

lemma group_member:
  assumes "i < length rows" and "P (rows ! i)"
  shows "filter P rows ! length (filter P (take i rows)) = rows ! i"
  by (subst filter_split_at [of i rows P, OF assms]) (simp add: nth_append)

lemma group_position_less:
  assumes "i < length rows" and "P (rows ! i)"
  shows "length (filter P (take i rows)) < length (filter P rows)"
  by (subst filter_split_at [of i rows P, OF assms]) simp

lemma transform_nth:
  assumes "i < length rows" and "key (rows ! i) = c"
  shows "transform key col f rows ! i
           = f (map col (filter (\<lambda>r. key r = c) rows))
               ! length (filter (\<lambda>r. key r = c) (take i rows))"
  using assms by (simp add: transform_def)

lemma zip_map_index:
  "zip rows (map h [0..<length rows]) = map (\<lambda>i. (rows ! i, h i)) [0..<length rows]"
  by (rule nth_equalityI) auto

text \<open>The values that the rows of one group hold in a column computed position by position.\<close>

lemma group_column:
  assumes "\<And>i. i < length rows \<Longrightarrow> P (rows ! i)
             \<Longrightarrow> h i = g (length (filter P (take i rows)))"
  shows "map snd (filter (\<lambda>row. P (fst row)) (zip rows (map h [0..<length rows])))
           = map g [0..<length (filter P rows)]"
proof -
  let ?idx = "filter (\<lambda>i. P (rows ! i)) [0..<length rows]"
  have "map snd (filter (\<lambda>row. P (fst row)) (zip rows (map h [0..<length rows]))) = map h ?idx"
    by (simp add: zip_map_index filter_map comp_def)
  also have "\<dots> = map (\<lambda>i. g (length (filter P (take i rows)))) ?idx"
    by (rule map_cong) (auto simp: assms)
  also have "\<dots> = map g (map (\<lambda>i. length (filter P (take i rows))) ?idx)"
    by (simp add: comp_def)
  finally show ?thesis
    by (simp only: group_positions)
qed

subsection \<open>The MAP column of one customer\<close>

lemma intra_map_at_k_index:
  "intra_map_at_k recs
     = map (\<lambda>i. transform cid interested expanding_sum recs ! i
                  / transform cid article_id expanding_count recs ! i
                  * interested (recs ! i)) [0..<length recs]"
  by (rule nth_equalityI) (auto simp: intra_map_at_k_def Let_def transform_def)

lemma intra_map_customer_row:
  assumes "i < length recs" and "cid (recs ! i) = c"
  shows "transform cid interested expanding_sum recs ! i
           / transform cid article_id expanding_count recs ! i * interested (recs ! i)
         = spec_running_precision (map interested (filter (\<lambda>r. cid r = c) recs))
               (length (filter (\<lambda>r. cid r = c) (take i recs)))
             * map interested (filter (\<lambda>r. cid r = c) recs)
                 ! length (filter (\<lambda>r. cid r = c) (take i recs))"
proof -
  let ?P = "\<lambda>r. cid r = c"
  let ?p = "length (filter ?P (take i recs))"
  have p: "?p < length (filter ?P recs)"
    using assms by (intro group_position_less) simp_all
  have s: "transform cid interested expanding_sum recs ! i
             = sum_list (take (Suc ?p) (map interested (filter ?P recs)))"
    using p by (simp only: transform_nth [of i recs cid c, OF assms] expanding_sum_nth length_map)
  have n: "transform cid article_id expanding_count recs ! i = real (Suc ?p)"
    using p by (simp only: transform_nth [of i recs cid c, OF assms] expanding_count_nth length_map)
  have "filter ?P recs ! ?p = recs ! i"
    using assms by (intro group_member) simp_all
  then have l: "interested (recs ! i) = map interested (filter ?P recs) ! ?p"
    using p by simp
  show ?thesis
    unfolding s n l spec_running_precision_def ..
qed

lemma intra_map_customer:
  "map snd (filter (\<lambda>row. cid (fst row) = c) (zip recs (intra_map_at_k recs)))
     = map (\<lambda>i. spec_running_precision (map interested (filter (\<lambda>r. cid r = c) recs)) i
                  * map interested (filter (\<lambda>r. cid r = c) recs) ! i)
           [0..<length (filter (\<lambda>r. cid r = c) recs)]"
  unfolding intra_map_at_k_index
  by (rule group_column) (rule intra_map_customer_row)

lemma length_intra_map_at_k [simp]: "length (intra_map_at_k recs) = length recs"
  by (simp add: intra_map_at_k_index)

lemma map_xcid_customers:
  "map_xcid recs
     = map (\<lambda>c. (c, spec_average_precision (map interested (filter (\<lambda>r. cid r = c) recs))))
         (sorted_list_of_set (cid ` set recs))"
proof -
  have keys: "(\<lambda>row. cid (fst row)) ` set (zip recs (intra_map_at_k recs)) = cid ` set recs"
  proof -
    have "fst ` set (zip recs (intra_map_at_k recs)) = set recs"
      by (metis length_intra_map_at_k map_fst_zip set_map)
    then show ?thesis
      by (metis image_image)
  qed
  have "mean_list (map snd (filter (\<lambda>row. cid (fst row) = c) (zip recs (intra_map_at_k recs))))
          = spec_average_precision (map interested (filter (\<lambda>r. cid r = c) recs))" for c
    unfolding intra_map_customer
    by (simp add: mean_list_def spec_average_precision_def)
  then show ?thesis
    by (simp add: map_xcid_def groupby_eq keys)
qed

subsection \<open>The sort\<close>

lemma insort_key_cong_on:
  "(\<And>y. y \<in> set ys \<Longrightarrow> (f x \<le> f y) = (g x \<le> g y)) \<Longrightarrow> insort_key f x ys = insort_key g x ys"
  by (induction ys) auto

lemma sort_key_cong_on:
  "(\<And>x y. x \<in> set xs \<Longrightarrow> y \<in> set xs \<Longrightarrow> (f x \<le> f y) = (g x \<le> g y))
     \<Longrightarrow> sort_key f xs = sort_key g xs"
proof (induction xs)
  case Nil
  show ?case by simp
next
  case (Cons x xs)
  have "sort_key f xs = sort_key g xs"
    by (rule Cons.IH) (simp add: Cons.prems)
  moreover have "insort_key f x (sort_key g xs) = insort_key g x (sort_key g xs)"
    by (rule insort_key_cong_on) (simp add: Cons.prems)
  ultimately show ?case by simp
qed

lemma map_insort_key:
  "map h (insort_key (\<lambda>x. f (h x)) x ys) = insort_key f (h x) (map h ys)"
  by (induction ys) auto

lemma map_sort_key:
  "map h (sort_key (\<lambda>x. f (h x)) xs) = sort_key f (map h xs)"
  by (induction xs) (auto simp: map_insort_key)

lemma sort_values_customer:
  "map (\<lambda>x. (sort_val x, interested x)) (filter (\<lambda>r. cid r = c) (sort_values recs))
     = sort_key (\<lambda>p. - fst p) (map (\<lambda>x. (sort_val x, interested x)) (filter (\<lambda>r. cid r = c) recs))"
proof -
  have "filter (\<lambda>r. cid r = c) (sort_values recs)
      = sort_key (\<lambda>r. (- cid r, - sort_val r)) (filter (\<lambda>r. cid r = c) recs)"
    by (simp add: sort_values_def filter_sort)
  also have "\<dots> = sort_key (\<lambda>r. - sort_val r) (filter (\<lambda>r. cid r = c) recs)"
    by (rule sort_key_cong_on) (auto simp: less_eq_prod_def)
  finally show ?thesis
    using map_sort_key [of "\<lambda>x. (sort_val x, interested x)" "\<lambda>p. - fst p"] by simp
qed

lemma ranked_labels:
  assumes "interested_filled recommendations (With_interested true_rows) sort_column = Inr recs"
  shows "map interested (filter (\<lambda>r. cid r = c) (sort_values recs))
           = spec_ranked_labels true_rows recommendations c"
proof -
  have "map interested (filter (\<lambda>r. cid r = c) (sort_values recs))
      = map snd (map (\<lambda>x. (sort_val x, interested x)) (filter (\<lambda>r. cid r = c) (sort_values recs)))"
    by (simp add: comp_def)
  then show ?thesis
    by (simp only: sort_values_customer joined_customer_rows [OF assms] spec_ranked_labels_def)
qed

lemma map_xcid_spec:
  assumes "interested_filled recommendations (With_interested true_rows) sort_column = Inr recs"
  shows "map snd (map_xcid (sort_values recs))
           = map (spec_map true_rows recommendations) (spec_customers recommendations)"
proof -
  have "cid ` set (sort_values recs) = cid ` set recommendations"
    using interested_filled_customers [OF assms] by (simp add: sort_values_def)
  then show ?thesis
    by (simp add: map_xcid_customers comp_def ranked_labels [OF assms] spec_map_def
        spec_customers_def)
qed

lemma map_xcid_sorted_customers:
  assumes "interested_filled recommendations (With_interested true_rows) sort_column = Inr recs"
  shows "map_xcid (sort_values recs)
           = map (\<lambda>c. (c, spec_map true_rows recommendations c))
               (spec_customers recommendations)"
proof -
  have "cid ` set (sort_values recs) = cid ` set recommendations"
    using interested_filled_customers [OF assms] by (simp add: sort_values_def)
  then show ?thesis
    by (simp add: map_xcid_customers ranked_labels [OF assms] spec_map_def spec_customers_def)
qed

lemma map_fields:
  assumes "get_metrics name recommendations (With_interested true_rows) articles_df sort_column k = Inr s"
  shows "cell s (''MAP@'' @ str k, ''mean'')
           = Some (Some (spec_mean (map (spec_map true_rows recommendations)
                                        (spec_customers recommendations))))
       \<and> cell s (''MAP@'' @ str k, ''std'')
           = Some (if length (spec_customers recommendations) < 2 then None
                   else Some (spec_std (map (spec_map true_rows recommendations)
                                            (spec_customers recommendations))))"
proof -
  from get_metrics_cells [OF assms] obtain recs where
    recs: "interested_filled recommendations (With_interested true_rows) sort_column = Inr recs"
    and m: "cell s (''MAP@'' @ str k, ''mean'')
              = Some (series_mean (map snd (map_xcid (sort_values recs))))"
    and sd: "cell s (''MAP@'' @ str k, ''std'')
              = Some (series_std (map snd (map_xcid (sort_values recs))))"
    by blast
  show ?thesis
    unfolding m sd map_xcid_spec [OF recs]
    by (simp only: across_customers [OF get_metrics_nonempty [OF assms]] simp_thms)
qed

text \<open>
  C2. On a valid input \<open>get_metrics\<close> returns a summary. The per-customer value that
  the code computes on the joined frame sorted by customer and sort column, both
  descending, is for every customer of the recommendations the customer's average
  precision: with the joined rows of the customer in descending order of the sort
  column, the mean over the positions of the running precision (cumulative label sum
  over cumulative row count) times the label at the position. In every summary that
  is returned, the fields \<open>MAP@k\<close> are the mean and the standard deviation of these
  values across customers; the standard deviation of a single customer is NaN.
\<close>

theorem map_at_k:
  "(valid_input recommendations (With_interested true_rows) articles_df sort_column
      \<longrightarrow> (\<exists>s. get_metrics name recommendations (With_interested true_rows) articles_df
                  sort_column k = Inr s))
   \<and> (interested_filled recommendations (With_interested true_rows) sort_column = Inr joined
      \<longrightarrow> map_xcid (sort_values joined)
             = map (\<lambda>c. (c, spec_map true_rows recommendations c))
                 (spec_customers recommendations))
   \<and> (get_metrics name recommendations (With_interested true_rows) articles_df sort_column k
        = Inr s
      \<longrightarrow> cell s (''MAP@'' @ str k, ''mean'')
             = Some (Some (spec_mean (map (spec_map true_rows recommendations)
                                          (spec_customers recommendations))))
        \<and> cell s (''MAP@'' @ str k, ''std'')
             = Some (if length (spec_customers recommendations) < 2 then None
                     else Some (spec_std (map (spec_map true_rows recommendations)
                                              (spec_customers recommendations)))))"
  using get_metrics_returns [of recommendations "With_interested true_rows" articles_df
      sort_column name k]
    map_xcid_sorted_customers [of recommendations true_rows sort_column joined]
    map_fields [of name recommendations true_rows articles_df sort_column k s]
  by blast

text \<open>In the example the hit of a customer has the smaller sort value: it is ranked
  second, behind a miss, and the average precision is (0 + 1/2) / 2.\<close>

theorem map_at_k_witness:
  "valid_input four_recommendations (With_interested four_true_rows) example_articles ''score''
   \<and> get_metrics ''m'' four_recommendations (With_interested four_true_rows) example_articles
        ''score'' 5
     = Inr four_summary
   \<and> interested_filled four_recommendations (With_interested four_true_rows) ''score''
     = Inr four_joined
   \<and> spec_ranked_labels four_true_rows four_recommendations 1 = [0, 1]
   \<and> map_xcid (sort_values four_joined) = [(1, 1 / 4), (2, 0), (3, 1 / 4), (4, 1 / 4)]
   \<and> cell four_summary (''MAP@5'', ''mean'') = Some (Some (3 / 16))
   \<and> cell four_summary (''MAP@5'', ''std'') = Some (Some (1 / 8))
   \<and> spec_mean (map (spec_map four_true_rows four_recommendations)
                    (spec_customers four_recommendations)) = 3 / 16
   \<and> spec_std (map (spec_map four_true_rows four_recommendations)
                   (spec_customers four_recommendations)) = 1 / 8"
proof -
  note t = map_at_k [where recommendations = four_recommendations
      and true_rows = four_true_rows and articles_df = example_articles
      and sort_column = "''score''" and name = "''m''" and k = 5 and joined = four_joined
      and s = four_summary]
  have ranked: "spec_ranked_labels four_true_rows four_recommendations 1 = [0, 1]"
    by (simp add: spec_ranked_labels_def spec_customer_rows_def spec_labels_def
        four_true_rows_def four_recommendations_def)
  have spec: "map (\<lambda>c. (c, spec_map four_true_rows four_recommendations c)) [1, 2, 3, 4]
      = [(1, 1 / 4), (2, 0), (3, 1 / 4), (4, 1 / 4)]"
    by (simp add: spec_map_def spec_average_precision_def spec_running_precision_def
        spec_ranked_labels_def spec_customer_rows_def spec_labels_def
        four_true_rows_def four_recommendations_def)
  have cells: "cell four_summary (''MAP@'' @ str 5, ''mean'') = Some (Some (3 / 16))"
    "cell four_summary (''MAP@'' @ str 5, ''std'') = Some (Some (1 / 8))"
    by (simp_all add: four_summary_def cell_def str_5)
  from t four_joined_run have per_customer:
    "map_xcid (sort_values four_joined) = [(1, 1 / 4), (2, 0), (3, 1 / 4), (4, 1 / 4)]"
    by (simp only: four_customers spec simp_thms)
  from t four_run cells
  have "spec_mean (map (spec_map four_true_rows four_recommendations)
                    (spec_customers four_recommendations)) = 3 / 16"
    and "spec_std (map (spec_map four_true_rows four_recommendations)
                   (spec_customers four_recommendations)) = 1 / 8"
    by (simp_all add: four_customers)
  with four_valid four_run four_joined_run ranked per_customer cells show ?thesis
    by (simp add: str_5)
qed

section \<open>Diversity\<close>

subsection \<open>What the code computes\<close>

lemma position_less: "x \<in> set xs \<Longrightarrow> position x xs < length xs"
  by (induction xs) auto

lemma nth_position: "x \<in> set xs \<Longrightarrow> xs ! position x xs = x"
  by (induction xs) auto

lemma position_nth: "distinct xs \<Longrightarrow> i < length xs \<Longrightarrow> position (xs ! i) xs = i"
proof (induction xs arbitrary: i)
  case Nil
  then show ?case by simp
next
  case (Cons y ys)
  show ?case
  proof (cases i)
    case 0
    then show ?thesis by simp
  next
    case (Suc j)
    with Cons.prems have j: "j < length ys" and "ys ! j \<in> set ys" and "y \<notin> set ys"
      by auto
    then have "ys ! j \<noteq> y" by auto
    with Cons.IH [of j] Cons.prems j Suc show ?thesis by simp
  qed
qed

lemma filter_eq_upt: "p < n \<Longrightarrow> filter (\<lambda>j. j = p) [0..<n] = [p]"
proof (induction n)
  case 0
  then show ?case by simp
next
  case (Suc n)
  show ?case
  proof (cases "p < n")
    case True
    with Suc.IH show ?thesis by simp
  next
    case False
    with Suc.prems have "p = n" by simp
    then have "filter (\<lambda>j. j = p) [0..<n] = []"
      by (auto simp: filter_empty_conv)
    with \<open>p = n\<close> show ?thesis by simp
  qed
qed

lemma indices_of_label:
  assumes "distinct ls" and "a \<in> set ls"
  shows "filter (\<lambda>j. ls ! j = a) [0..<length ls] = [position a ls]"
proof -
  have "filter (\<lambda>j. ls ! j = a) [0..<length ls] = filter (\<lambda>j. j = position a ls) [0..<length ls]"
  proof (rule filter_cong [OF refl])
    fix j assume "j \<in> set [0..<length ls]"
    then have j: "j < length ls" by simp
    show "(ls ! j = a) = (j = position a ls)"
      using position_nth [OF assms(1) j] nth_position [OF assms(2)] by auto
  qed
  also have "\<dots> = [position a ls]"
    using position_less [OF assms(2)] by (rule filter_eq_upt)
  finally show ?thesis .
qed


lemma concat_map_if:
  "concat (map (\<lambda>j. if R j then [f j] else []) xs) = map f (filter R xs)"
  by (induction xs) auto

text \<open>The row of the flattened similarity frame for a pair of labels.\<close>

lemma sims_frame_lookup:
  assumes "sims_frame P labels = Inr sims_df" and "distinct labels"
    and "a \<in> set labels" and "b \<in> set labels"
  shows "filter (\<lambda>(x, y, score). x = a \<and> y = b) sims_df
           = [(a, b, P ! position b labels ! position a labels)]"
proof -
  let ?n = "length labels"
  let ?h = "\<lambda>j i. (labels ! j, labels ! i, P ! i ! j)"
  let ?Q = "\<lambda>t :: string \<times> string \<times> real. fst t = a \<and> fst (snd t) = b"
  have eq: "(\<lambda>(x, y, score). x = a \<and> y = b) = ?Q"
    by (auto simp: fun_eq_iff)
  have sims: "sims_df = concat (map (\<lambda>j. map (?h j) [0..<?n]) [0..<?n])"
    using assms(1) by (simp add: sims_frame_def split: if_splits)
  have inner: "filter ?Q (map (?h j) [0..<?n])
          = (if labels ! j = a then [(a, b, P ! position b labels ! j)] else [])" for j
  proof -
    have "filter ?Q (map (?h j) [0..<?n])
        = map (?h j) (filter (\<lambda>i. labels ! j = a \<and> labels ! i = b) [0..<?n])"
      by (simp add: filter_map comp_def)
    also have "\<dots> = (if labels ! j = a then map (?h j) (filter (\<lambda>i. labels ! i = b) [0..<?n]) else [])"
      by simp
    also have "\<dots> = (if labels ! j = a then [(a, b, P ! position b labels ! j)] else [])"
      by (simp add: indices_of_label [OF assms(2,4)] nth_position [OF assms(4)])
    finally show ?thesis .
  qed
  have "filter ?Q sims_df = concat (map (\<lambda>j. filter ?Q (map (?h j) [0..<?n])) [0..<?n])"
    unfolding sims by (simp only: filter_concat map_map comp_def)
  also have "\<dots> = concat (map (\<lambda>j. if labels ! j = a then [(a, b, P ! position b labels ! j)] else [])
                           [0..<?n])"
    by (simp only: inner)
  also have "\<dots> = map (\<lambda>j. (a, b, P ! position b labels ! j)) (filter (\<lambda>j. labels ! j = a) [0..<?n])"
    by (rule concat_map_if)
  finally show ?thesis
    unfolding eq by (simp add: indices_of_label [OF assms(2,3)])
qed

lemma cosine_similarity_nth:
  assumes "cosine_similarity X = Inr P" and "i < length X" and "j < length X"
  shows "P ! i ! j = dot (normalize (X ! i)) (normalize (X ! j))"
  using assms by (auto simp: cosine_similarity_def Let_def split: if_splits)



lemma concat_map_singleton:
  "(\<And>x. x \<in> set xs \<Longrightarrow> f x = [g x]) \<Longrightarrow> concat (map f xs) = map g xs"
  by (induction xs) auto

lemma explode_rows:
  assumes "\<forall>row \<in> set combs. snd row \<noteq> []"
  shows "explode combs = concat (map (\<lambda>row. map (\<lambda>p. (fst row, Some p)) (snd row)) combs)"
  using assms by (induction combs) (auto simp: explode_def)

lemma explode_None:
  assumes "row \<in> set combs" and "snd row = []"
  shows "(fst row, None) \<in> set (explode combs)"
proof -
  from assms(1) obtain xs ys where "combs = xs @ row # ys"
    by (meson split_list)
  moreover have "(\<lambda>(c, ps). if ps = [] then [(c, None)] else map (\<lambda>p. (c, Some p)) ps) row
                   = [(fst row, None)]"
    using assms(2) by (cases row) simp
  ultimately show ?thesis
    by (simp add: explode_def)
qed

lemma zip_star_explode:
  assumes "zip_star (explode combs) = Inr pairs"
  shows "(\<forall>row \<in> set combs. snd row \<noteq> [])
       \<and> pairs = concat (map (\<lambda>row. map (Pair (fst row)) (snd row)) combs)"
proof -
  have none: "\<not> (\<exists>row \<in> set (explode combs). snd row = None)"
    using assms by (auto simp: zip_star_def split: if_splits)
  have ne: "\<forall>row \<in> set combs. snd row \<noteq> []"
  proof
    fix row assume row: "row \<in> set combs"
    show "snd row \<noteq> []"
    proof
      assume "snd row = []"
      from explode_None [OF row this] none show False by force
    qed
  qed
  have "pairs = map (\<lambda>(c, p). (c, the p)) (explode combs)"
    using assms by (auto simp: zip_star_def split: if_splits)
  also have "\<dots> = concat (map (\<lambda>row. map (Pair (fst row)) (snd row)) combs)"
    unfolding explode_rows [OF ne] by (simp add: map_concat comp_def)
  finally show ?thesis
    using ne by simp
qed

lemma set_combinations2: "(a, b) \<in> set (combinations2 xs) \<Longrightarrow> a \<in> set xs \<and> b \<in> set xs"
  by (induction xs) auto

lemma filter_customer_concat:
  assumes "distinct K"
  shows "filter (\<lambda>p. fst p = c) (concat (map (\<lambda>c'. map (\<lambda>p. (c', g p)) (F c')) K))
           = (if c \<in> set K then map (\<lambda>p. (c, g p)) (F c) else [])"
  using assms
proof (induction K)
  case Nil
  show ?case by simp
next
  case (Cons k K)
  have keep: "filter (\<lambda>p. fst p = c) (map (\<lambda>p. (k, g p)) ps)
                = (if k = c then map (\<lambda>p. (k, g p)) ps else [])" for ps
    by (induction ps) auto
  from Cons show ?case
    by (auto simp: keep)
qed

lemma groupby_fst_keys:
  assumes "\<And>c. c \<in> set K \<Longrightarrow> F c \<noteq> []"
  shows "fst ` set (concat (map (\<lambda>c. map (\<lambda>p. (c, g p)) (F c)) K)) = set K"
proof (intro equalityI subsetI)
  fix c assume "c \<in> fst ` set (concat (map (\<lambda>c. map (\<lambda>p. (c, g p)) (F c)) K))"
  then show "c \<in> set K" by auto
next
  fix c assume c: "c \<in> set K"
  then obtain p where "p \<in> set (F c)"
    using assms [OF c] by (cases "F c") auto
  then have "(c, g p) \<in> set (concat (map (\<lambda>c. map (\<lambda>p. (c, g p)) (F c)) K))"
    using c by auto
  then show "c \<in> fst ` set (concat (map (\<lambda>c. map (\<lambda>p. (c, g p)) (F c)) K))"
    by (metis fst_conv image_eqI)
qed

text \<open>
  Whenever the diversity step returns, the value of a customer is one minus the mean,
  over the pairs of the customer's articles in the sorted frame, of the score read
  for the pair.
\<close>

lemma diversity_x_cid_reads:
  assumes "diversity_x_cid recs articles_df = Inr diversity"
  shows "diversity
           = map (\<lambda>c. (c, 1 - mean_list (map (\<lambda>p. read_similarity recs articles_df (fst p) (snd p))
                   (combinations2 (map article_id (filter (\<lambda>r. cid r = c) recs))))))
               (sorted_list_of_set (cid ` set recs))"
proof -
  let ?labels = "unique (map article_id recs)"
  let ?X = "map snd (filter (\<lambda>(a, v). a \<in> set ?labels) articles_df)"
  let ?K = "sorted_list_of_set (cid ` set recs)"
  let ?C = "\<lambda>c. combinations2 (map article_id (filter (\<lambda>r. cid r = c) recs))"
  let ?S = "\<lambda>p. read_similarity recs articles_df (fst p) (snd p)"
  let ?combs = "map (\<lambda>(c, x). (c, combinations2 x))
                  (map (\<lambda>(c, g). (c, map article_id g)) (groupby cid recs))"
  from assms obtain P where P: "cosine_similarity ?X = Inr P"
    by (auto simp: diversity_x_cid_def Let_def split: sum.splits)
  with assms obtain sims_df where sims: "sims_frame P ?labels = Inr sims_df"
    by (auto simp: diversity_x_cid_def Let_def split: sum.splits)
  with assms P obtain pairs where pairs: "zip_star (explode ?combs) = Inr pairs"
    by (auto simp: diversity_x_cid_def Let_def split: sum.splits)
  have div: "diversity = map (\<lambda>(c, g). (c, 1 - mean_list (map snd g)))
                           (groupby fst (merge_inner pairs sims_df))"
    using assms P sims pairs by (simp add: diversity_x_cid_def Let_def)
  have len: "length ?X = length ?labels"
    using sims cosine_similarity_length [OF P] by (simp add: sims_frame_def split: if_splits)
  have combs: "?combs = map (\<lambda>c. (c, ?C c)) ?K"
    by (simp add: groupby_eq comp_def)
  from zip_star_explode [OF pairs]
  have ne: "\<forall>row \<in> set ?combs. snd row \<noteq> []"
    and pairs_eq: "pairs = concat (map (\<lambda>row. map (Pair (fst row)) (snd row)) ?combs)"
    by blast+
  have C_ne: "?C c \<noteq> []" if "c \<in> set ?K" for c
    using ne that unfolding combs by auto
  have pairs_K: "pairs = concat (map (\<lambda>c. map (Pair c) (?C c)) ?K)"
    unfolding pairs_eq combs by (simp add: comp_def)
  have score: "filter (\<lambda>(x, y, score). x = a \<and> y = b) sims_df = [(a, b, ?S (a, b))]"
    if "(c, a, b) \<in> set pairs" for c a b
  proof -
    from that have "(a, b) \<in> set (?C c)"
      unfolding pairs_K by auto
    from set_combinations2 [OF this] have a: "a \<in> set ?labels" and b: "b \<in> set ?labels"
      by auto
    have "P ! position b ?labels ! position a ?labels = ?S (a, b)"
      using cosine_similarity_nth [OF P, of "position b ?labels" "position a ?labels"]
        position_less [OF a] position_less [OF b] len
      by (simp add: read_similarity_def Let_def)
    then show ?thesis
      using sims_frame_lookup [OF sims distinct_unique a b] by simp
  qed
  have "merge_inner pairs sims_df = map (\<lambda>t. (fst t, ?S (snd t))) pairs"
    unfolding merge_inner_def
  proof (rule concat_map_singleton)
    fix t assume t: "t \<in> set pairs"
    obtain c a b where [simp]: "t = (c, a, b)" by (cases t) auto
    from t score [of c a b] show
      "(case t of (c, a, b) \<Rightarrow> map (\<lambda>(x, y, score). (c, score))
          (filter (\<lambda>(x, y, score). x = a \<and> y = b) sims_df)) = [(fst t, ?S (snd t))]"
      by simp
  qed
  also have "\<dots> = concat (map (\<lambda>c. map (\<lambda>p. (c, ?S p)) (?C c)) ?K)"
    unfolding pairs_K by (simp add: map_concat comp_def)
  finally have merged: "merge_inner pairs sims_df = concat (map (\<lambda>c. map (\<lambda>p. (c, ?S p)) (?C c)) ?K)" .
  have keys: "fst ` set (merge_inner pairs sims_df) = cid ` set recs"
    unfolding merged using groupby_fst_keys [of ?K ?C ?S] C_ne by simp
  have group: "map snd (filter (\<lambda>p. fst p = c) (merge_inner pairs sims_df)) = map ?S (?C c)"
    if "c \<in> cid ` set recs" for c
    unfolding merged using that
    by (simp add: filter_customer_concat [of ?K c ?S ?C] comp_def)
  have "groupby fst (merge_inner pairs sims_df)
      = map (\<lambda>c. (c, filter (\<lambda>p. fst p = c) (merge_inner pairs sims_df))) ?K"
    by (simp add: groupby_eq keys)
  then have "diversity = map (\<lambda>c. (c, 1 - mean_list (map snd
                (filter (\<lambda>p. fst p = c) (merge_inner pairs sims_df))))) ?K"
    unfolding div by (simp add: comp_def)
  also have "\<dots> = map (\<lambda>c. (c, 1 - mean_list (map ?S (?C c)))) ?K"
    by (rule map_cong [OF refl]) (simp add: group)
  finally show ?thesis .
qed

subsection \<open>When the labels name the rows they are computed from\<close>

lemma sum_squares_zero:
  "sum_list (map (\<lambda>x. x * x) (u :: real list)) = 0 \<Longrightarrow> x \<in> set u \<Longrightarrow> x = 0"
proof (induction u)
  case Nil
  then show ?case by simp
next
  case (Cons y ys)
  have nonneg: "0 \<le> sum_list (map (\<lambda>x. x * x) ys)"
    by (rule sum_list_nonneg) auto
  have "y * y + sum_list (map (\<lambda>x. x * x) ys) = 0"
    using Cons.prems(1) by simp
  with nonneg have "y * y = 0" and "sum_list (map (\<lambda>x. x * x) ys) = 0"
    by (auto simp: add_nonneg_eq_0_iff)
  with Cons show ?case by auto
qed

lemma dot_zero_left: "(\<And>x. x \<in> set u \<Longrightarrow> x = 0) \<Longrightarrow> dot u v = 0"
proof (induction u arbitrary: v)
  case Nil
  show ?case by (simp add: dot_def)
next
  case (Cons y ys)
  have "dot ys w = 0" for w
    by (rule Cons.IH) (simp add: Cons.prems)
  then show ?case
    using Cons.prems [of y] by (cases v) (auto simp: dot_def)
qed

lemma dot_commute: "dot u v = dot v u"
proof (induction u arbitrary: v)
  case Nil
  show ?case by (simp add: dot_def)
next
  case (Cons y ys)
  then show ?case
    by (cases v) (auto simp: dot_def)
qed

lemma dot_scale: "dot (map (\<lambda>x. x / s) u) (map (\<lambda>x. x / t) v) = dot u v / (s * t)"
proof (induction u arbitrary: v)
  case Nil
  show ?case by (simp add: dot_def)
next
  case (Cons y ys)
  show ?case
  proof (cases v)
    case Nil
    then show ?thesis by (simp add: dot_def)
  next
    case (Cons z zs)
    with Cons.IH [of zs] show ?thesis
      by (simp add: dot_def add_divide_distrib)
  qed
qed

text \<open>The similarity of the library is the cosine of the two vectors, and 0 when one
  of them is the zero vector.\<close>

lemma dot_normalize: "dot (normalize u) (normalize v) = spec_cosine u v"
proof -
  have zero_u: "dot u v = 0" if "l2_norm u = 0"
  proof (rule dot_zero_left)
    fix x assume "x \<in> set u"
    with that show "x = 0"
      using sum_squares_zero [of u x] by (simp add: l2_norm_def)
  qed
  have zero_v: "dot u v = 0" if "l2_norm v = 0"
  proof -
    have "dot v u = 0"
    proof (rule dot_zero_left)
      fix x assume "x \<in> set v"
      with that show "x = 0"
        using sum_squares_zero [of v x] by (simp add: l2_norm_def)
    qed
    then show ?thesis by (simp add: dot_commute)
  qed
  show ?thesis
    using zero_u zero_v by (simp add: normalize_def Let_def dot_scale spec_cosine_def)
qed

lemma l2_norm_square: "l2_norm v * l2_norm v = dot v v"
proof -
  have "dot v v = sum_list (map (\<lambda>x. x * x) v)"
    by (induction v) (auto simp: dot_def)
  moreover have "0 \<le> sum_list (map (\<lambda>x. x * x) v)"
    by (rule sum_list_nonneg) auto
  ultimately show ?thesis
    by (simp add: l2_norm_def)
qed

lemma spec_cosine_self: "l2_norm v \<noteq> 0 \<Longrightarrow> spec_cosine v v = 1"
  by (simp add: spec_cosine_def l2_norm_square [symmetric])

lemma spec_cosine_commute: "spec_cosine u v = spec_cosine v u"
  unfolding spec_cosine_def by (subst dot_commute) (simp only: mult.commute)

lemma read_similarity_aligned:
  assumes "map fst (filter (\<lambda>(a, v). a \<in> set (unique (map article_id recs))) articles_df)
             = unique (map article_id recs)"
    and "a \<in> article_id ` set recs" and "b \<in> article_id ` set recs"
  shows "read_similarity recs articles_df a b
           = spec_cosine (the (map_of articles_df a)) (the (map_of articles_df b))"
proof -
  define labels where "labels = unique (map article_id recs)"
  define F where "F = filter (\<lambda>(a, v). a \<in> set labels) articles_df"
  have aligned: "map fst F = labels"
    using assms(1) by (simp add: F_def labels_def)
  have feat: "map_of articles_df x = Some (map snd F ! position x labels)" if x: "x \<in> set labels" for x
  proof -
    have "length F = length labels"
      using aligned by (metis length_map)
    then have p: "position x labels < length F"
      using position_less [OF x] by simp
    have "fst (F ! position x labels) = map fst F ! position x labels"
      using p by simp
    also have "\<dots> = x"
      unfolding aligned using x by (rule nth_position)
    finally have "F ! position x labels = (x, map snd F ! position x labels)"
      using p by (simp add: prod_eq_iff)
    then have inF: "(x, map snd F ! position x labels) \<in> set F"
      using nth_mem [OF p] by simp
    have d: "distinct (map fst F)"
      unfolding aligned labels_def by (rule distinct_unique)
    have 1: "map_of F x = Some (map snd F ! position x labels)"
      using d inF by (rule map_of_is_SomeI)
    from inF have "(x, map snd F ! position x labels) \<in> set articles_df"
      by (simp add: F_def)
    then obtain z where z: "map_of articles_df x = Some z"
      using weak_map_of_SomeI by fastforce
    have "map_of (filter (\<lambda>(a, v). a \<in> set labels) articles_df) x = Some z"
      using z x by (rule map_of_filter_in)
    with 1 z show ?thesis
      by (simp add: F_def)
  qed
  have a: "a \<in> set labels" and b: "b \<in> set labels"
    using assms(2,3) by (auto simp: labels_def)
  have "read_similarity recs articles_df a b
      = dot (normalize (map snd F ! position b labels)) (normalize (map snd F ! position a labels))"
    by (simp add: read_similarity_def Let_def F_def labels_def)
  also have "\<dots> = spec_cosine (map snd F ! position b labels) (map snd F ! position a labels)"
    by (rule dot_normalize)
  also have "\<dots> = spec_cosine (map snd F ! position a labels) (map snd F ! position b labels)"
    by (rule spec_cosine_commute)
  finally show ?thesis
    by (simp only: feat [OF a] feat [OF b] option.sel)
qed

text \<open>
  If the selected items rows come in the order of the labels, every customer's
  diversity is one minus the mean cosine similarity of the pairs of the customer's
  articles.
\<close>

lemma diversity_when_aligned:
  assumes "diversity_x_cid recs articles_df = Inr diversity"
    and "map fst (filter (\<lambda>(a, v). a \<in> set (unique (map article_id recs))) articles_df)
           = unique (map article_id recs)"
  shows "diversity
           = map (\<lambda>c. (c, 1 - mean_list
                   (map (\<lambda>p. spec_cosine (the (map_of articles_df (fst p)))
                                          (the (map_of articles_df (snd p))))
                     (combinations2 (map article_id (filter (\<lambda>r. cid r = c) recs))))))
               (sorted_list_of_set (cid ` set recs))"
proof -
  have "map (\<lambda>p. read_similarity recs articles_df (fst p) (snd p))
            (combinations2 (map article_id (filter (\<lambda>r. cid r = c) recs)))
      = map (\<lambda>p. spec_cosine (the (map_of articles_df (fst p))) (the (map_of articles_df (snd p))))
            (combinations2 (map article_id (filter (\<lambda>r. cid r = c) recs)))" for c
  proof (rule map_cong [OF refl])
    fix p assume "p \<in> set (combinations2 (map article_id (filter (\<lambda>r. cid r = c) recs)))"
    then have "(fst p, snd p) \<in> set (combinations2 (map article_id (filter (\<lambda>r. cid r = c) recs)))"
      by simp
    from set_combinations2 [OF this]
    have "fst p \<in> article_id ` set recs" and "snd p \<in> article_id ` set recs"
      by auto
    then show "read_similarity recs articles_df (fst p) (snd p)
        = spec_cosine (the (map_of articles_df (fst p))) (the (map_of articles_df (snd p)))"
      by (rule read_similarity_aligned [OF assms(2)])
  qed
  then show ?thesis
    by (simp only: diversity_x_cid_reads [OF assms(1)])
qed

subsection \<open>An input on which they do not\<close>

lemma diverse_valid:
  "valid_input diverse_recommendations example_true_labels diverse_articles ''score''"
  by (simp add: valid_input_def diverse_recommendations_def example_true_labels_def
      diverse_articles_def)

lemma spec_customers_diverse: "spec_customers diverse_recommendations = [1, 2]"
  by (simp add: spec_customers_def diverse_recommendations_def)

lemma spec_diversity_diverse:
  "spec_diversity diverse_articles diverse_recommendations 1 = 1"
  "spec_diversity diverse_articles diverse_recommendations 2 = 1"
  by (simp_all add: spec_diversity_def spec_cosine_def dot_def l2_norm_def mean_list_def
      diverse_articles_def diverse_recommendations_def)

lemma diverse_joined:
  "interested_filled diverse_recommendations example_true_labels ''score''
     = Inr [\<lparr>cid = 2, article_id = ''A03'', sort_val = 2, interested = 0\<rparr>,
            \<lparr>cid = 2, article_id = ''A02'', sort_val = 1, interested = 0\<rparr>,
            \<lparr>cid = 1, article_id = ''A03'', sort_val = 2, interested = 0\<rparr>,
            \<lparr>cid = 1, article_id = ''A01'', sort_val = 1, interested = 1\<rparr>]"
  by (simp add: interested_filled_def merge_left_def matched_def with_interested_def fillna_def
      diverse_recommendations_def example_true_labels_def)

lemma diverse_sorted:
  "sort_values [\<lparr>cid = 2, article_id = ''A03'', sort_val = 2, interested = 0\<rparr>,
            \<lparr>cid = 2, article_id = ''A02'', sort_val = 1, interested = 0\<rparr>,
            \<lparr>cid = 1, article_id = ''A03'', sort_val = 2, interested = 0\<rparr>,
            \<lparr>cid = 1, article_id = ''A01'', sort_val = 1, interested = 1\<rparr>]
    = [\<lparr>cid = 2, article_id = ''A03'', sort_val = 2, interested = 0\<rparr>,
            \<lparr>cid = 2, article_id = ''A02'', sort_val = 1, interested = 0\<rparr>,
            \<lparr>cid = 1, article_id = ''A03'', sort_val = 2, interested = 0\<rparr>,
            \<lparr>cid = 1, article_id = ''A01'', sort_val = 1, interested = 1\<rparr>]"
  by (simp add: sort_values_def)

lemma diverse_diversity:
  "diversity_x_cid [\<lparr>cid = 2, article_id = ''A03'', sort_val = 2, interested = 0\<rparr>,
            \<lparr>cid = 2, article_id = ''A02'', sort_val = 1, interested = 0\<rparr>,
            \<lparr>cid = 1, article_id = ''A03'', sort_val = 2, interested = 0\<rparr>,
            \<lparr>cid = 1, article_id = ''A01'', sort_val = 1, interested = 1\<rparr>] diverse_articles
     = Inr [(1, 1), (2, 0)]"
  by (simp add: diversity_x_cid_def unique_def cosine_similarity_def normalize_def l2_norm_def
      dot_def sims_frame_def explode_def zip_star_def merge_inner_def groupby_def mean_list_def
      Let_def diverse_articles_def)

text \<open>
  C4. The per-customer diversity should be the mean over the pairs of the customer's
  articles of one minus the cosine similarity of the features of the pair. The code
  computes the similarity matrix on the rows of the items table in the order of that
  table, and labels its rows and columns with the article ids in the order of their
  first appearance in the sorted recommendations. Where the two orders differ a pair
  is given the similarity of another pair: below, customer 2 holds the orthogonal
  articles \<open>A03\<close> and \<open>A02\<close> (diversity 1) and is given the similarity of \<open>A01\<close> and
  \<open>A02\<close>, which is 1 (diversity 0), so that the mean diversity of the summary is 1/2
  where the specification gives 1. The input is valid in the sense of \<open>valid_input\<close>.
\<close>

theorem diversity_reads_wrong_pair:
  "map_sum id (\<lambda>recs. diversity_x_cid (sort_values recs) diverse_articles)
       (interested_filled diverse_recommendations example_true_labels ''score'')
     = Inr (Inr [(1, 1), (2, 0)])
   \<and> map (\<lambda>c. (c, spec_diversity diverse_articles diverse_recommendations c))
         (spec_customers diverse_recommendations) = [(1, 1), (2, 1)]
   \<and> map_sum id (\<lambda>s. cell s (''Diversity'', ''mean''))
        (get_metrics ''m'' diverse_recommendations example_true_labels diverse_articles ''score'' 5)
     = Inr (Some (Some (1 / 2)))
   \<and> series_mean (map (spec_diversity diverse_articles diverse_recommendations)
        (spec_customers diverse_recommendations)) = Some 1"
proof -
  have catalog: "nunique (map fst diverse_articles) \<noteq> 0"
    by (simp add: nunique_def diverse_articles_def)
  have "map_sum id (\<lambda>s. cell s (''Diversity'', ''mean''))
        (get_metrics ''m'' diverse_recommendations example_true_labels diverse_articles ''score'' 5)
     = Inr (Some (Some (1 / 2)))"
    by (simp add: get_metrics_def catalog diverse_joined diverse_sorted diverse_diversity Let_def
        cell_def series_mean_def mean_list_def)
  then show ?thesis
    by (simp add: diverse_joined diverse_sorted diverse_diversity spec_customers_diverse
      spec_diversity_diverse series_mean_def mean_list_def)
qed

text \<open>A customer with a single joined row has no pair: the exploded frame then
  holds a NaN cell, and the call raises instead of leaving the customer out.\<close>

lemma single_recommendation_type_error:
  "get_metrics ''m'' [\<lparr>cid = 1, article_id = ''A01'', sort_val = 1\<rparr>] example_true_labels
      example_articles ''rank'' 5 = Inl TypeError"
  by (simp add: metrics_defs example_true_labels_def example_articles_def)

end
